theory Spec2Isabelle
  imports Complex_Main "HOL-Library.Monad_Syntax"
begin

chapter \<open>The embedding\<close>

section \<open>JavaScript values\<close>

text \<open>
  The analysis core is TypeScript; its types are erased at run time, and the provider's
  answer is whatever \<open>JSON.parse\<close> returns. The model therefore keeps the dynamic values
  of the language where the code reads provider data.

  A number is an IEEE double: a finite value (every finite double is a rational), the two
  infinities, or NaN. The code below only compares and selects numbers
  (\<open>Math.max\<close>, \<open>Math.min\<close>, \<open>||\<close>), which is exact on doubles.
\<close>

datatype jsnumber = Fin rat | PInf | NInf | NaN

datatype jsval =
    JUndefined
  | JNull
  | JBool bool
  | JNum jsnumber
  | JStr string
  | JArr "jsval list"
  | JObj "(string \<times> jsval) list"

fun num_le :: "jsnumber \<Rightarrow> jsnumber \<Rightarrow> bool" where
  "num_le NaN _ = False"
| "num_le _ NaN = False"
| "num_le NInf _ = True"
| "num_le _ PInf = True"
| "num_le (Fin x) (Fin y) = (x \<le> y)"
| "num_le _ _ = False"

text \<open>\<open>Math.max\<close> and \<open>Math.min\<close> of two numbers: NaN as soon as one argument is NaN.\<close>

definition Math_max :: "jsnumber \<Rightarrow> jsnumber \<Rightarrow> jsnumber" where
  "Math_max a b = (if a = NaN \<or> b = NaN then NaN else if num_le a b then b else a)"

definition Math_min :: "jsnumber \<Rightarrow> jsnumber \<Rightarrow> jsnumber" where
  "Math_min a b = (if a = NaN \<or> b = NaN then NaN else if num_le a b then a else b)"

text \<open>Truthiness, as \<open>!v\<close> and \<open>v || d\<close> read it.\<close>

fun truthy :: "jsval \<Rightarrow> bool" where
  "truthy JUndefined = False"
| "truthy JNull = False"
| "truthy (JBool b) = b"
| "truthy (JNum n) = (n \<noteq> Fin 0 \<and> n \<noteq> NaN)"
| "truthy (JStr s) = (s \<noteq> [])"
| "truthy (JArr _) = True"
| "truthy (JObj _) = True"

definition orElse :: "jsval \<Rightarrow> jsval \<Rightarrow> jsval" where
  "orElse v d = (if truthy v then v else d)"

text \<open>
  \<open>ToNumber\<close>, applied by \<open>Math.max\<close> and \<open>Math.min\<close> to their arguments; \<open>None\<close> is
  a TypeError. An object is first converted to a primitive through its \<open>valueOf\<close> and
  its \<open>toString\<close>. An object that \<open>JSON.parse\<close> built inherits both and converts to the
  string \<open>[object Object]\<close>, hence to NaN, unless it has an own property \<open>toString\<close>:
  that one is not callable, and the conversion throws. An array is joined into a
  string; joining converts the elements other than \<open>null\<close> to strings (and theirs, for
  an array in an array), and throws for an element that is such an object. The
  conversion of a string to a number, also of a joined array, is the platform's
  \<open>StringToNumber\<close>; it is not code of this repository and is the parameter \<open>coerce\<close>.
\<close>

fun toStringThrows :: "jsval \<Rightarrow> bool" where
  "toStringThrows (JObj kvs) = (''toString'' \<in> set (map fst kvs))"
| "toStringThrows (JArr xs) = list_ex toStringThrows xs"
| "toStringThrows _ = False"

fun toNumberValue :: "(jsval \<Rightarrow> jsnumber) \<Rightarrow> jsval \<Rightarrow> jsnumber" where
  "toNumberValue coerce JUndefined = NaN"
| "toNumberValue coerce JNull = Fin 0"
| "toNumberValue coerce (JBool b) = (if b then Fin 1 else Fin 0)"
| "toNumberValue coerce (JNum n) = n"
| "toNumberValue coerce (JStr s) = coerce (JStr s)"
| "toNumberValue coerce (JArr xs) = coerce (JArr xs)"
| "toNumberValue coerce (JObj kvs) = NaN"

definition ToNumber :: "(jsval \<Rightarrow> jsnumber) \<Rightarrow> jsval \<Rightarrow> jsnumber option" where
  "ToNumber coerce v = (if toStringThrows v then None else Some (toNumberValue coerce v))"

text \<open>
  Property access \<open>v.k\<close> for the property names the parser reads (none of them is a
  property of a prototype): a TypeError (\<open>None\<close>) on \<open>null\<close> and \<open>undefined\<close>, the
  member of an object, \<open>undefined\<close> on everything else. \<open>v?.k\<close> is \<open>undefined\<close> where
  \<open>v.k\<close> throws.
\<close>

fun getProp :: "jsval \<Rightarrow> string \<Rightarrow> jsval option" where
  "getProp JUndefined k = None"
| "getProp JNull k = None"
| "getProp (JObj kvs) k = (case map_of kvs k of None \<Rightarrow> Some JUndefined | Some v \<Rightarrow> Some v)"
| "getProp _ k = Some JUndefined"

definition optProp :: "jsval \<Rightarrow> string \<Rightarrow> jsval" where
  "optProp v k = (case getProp v k of None \<Rightarrow> JUndefined | Some x \<Rightarrow> x)"

section \<open>Characters and strings\<close>

text \<open>
  A string is a list of code units; the model covers the code units below 256 (Latin-1).
  \<open>isSpace\<close> is the class \<open>\\s\<close> of a regular expression, which is also what
  \<open>trim\<close> strips; \<open>isWord\<close> is \<open>\\w\<close>.
\<close>

definition isSpace :: "char \<Rightarrow> bool" where
  "isSpace c = (c \<in> {CHR 0x09, CHR 0x0A, CHR 0x0B, CHR 0x0C, CHR 0x0D, CHR 0x20, CHR 0xA0})"

definition isWord :: "char \<Rightarrow> bool" where
  "isWord c = (let n = (of_char c :: int) in
     (48 \<le> n \<and> n \<le> 57) \<or> (65 \<le> n \<and> n \<le> 90) \<or> n = 95 \<or> (97 \<le> n \<and> n \<le> 122))"

definition trim :: "string \<Rightarrow> string" where
  "trim s = rev (dropWhile isSpace (rev (dropWhile isSpace s)))"

definition toLowerChar :: "char \<Rightarrow> char" where
  "toLowerChar c = (let n = (of_char c :: int) in
     if (65 \<le> n \<and> n \<le> 90) \<or> (192 \<le> n \<and> n \<le> 222 \<and> n \<noteq> 215) then char_of (n + 32) else c)"

definition toLowerCase :: "string \<Rightarrow> string" where
  "toLowerCase s = map toLowerChar s"

text \<open>The decimal digits of an integer, as a template string prints it.\<close>

function decimal :: "int \<Rightarrow> string" where
  "decimal n =
     (if n < 0 then CHR ''-'' # decimal (- n)
      else if n < 10 then [char_of (48 + n)]
      else decimal (n div 10) @ [char_of (48 + n mod 10)])"
  by pat_completeness auto
termination
  by (relation "measure (\<lambda>n. if n < 0 then nat (- n) + 1 else nat n)") auto

declare decimal.simps [simp del]

section \<open>Data model\<close>

record Position =
  pstart :: jsnumber
  pend :: jsnumber

record Suggestion =
  sg_type :: jsval
  sg_severity :: jsval
  sg_description :: jsval
  sg_originalText :: jsval
  sg_suggestedText :: jsval
  sg_position :: Position

record AmbiguousPhrase =
  ap_text :: jsval
  ap_position :: Position
  ap_reason :: jsval
  ap_suggestions :: "jsval list"

record Metrics =
  readabilityScore :: jsnumber
  clarityScore :: jsnumber
  toneAnalysis :: jsval
  targetAudience :: jsval

record AnalysisResult =
  ar_id :: string
  postId :: string
  timestamp :: int
  metrics :: Metrics
  suggestions :: "Suggestion list"
  ambiguousPhrases :: "AmbiguousPhrase list"

datatype error =
    ConfigurationError
  | ValidationError
  | TransportError
  | MalformedResponseError
  | UnparsableAnalysisError
  | AnalysisFailed

section \<open>AnalysisParser: from the parsed provider data to an AnalysisResult\<close>

text \<open>
  \<open>parseAnalysisResponse\<close>, from the structure check on: \<open>analysisData\<close> is what
  \<open>JSON.parse\<close> returned. \<open>None\<close> is an exception thrown inside the \<open>try\<close> block: the
  explicit \<open>Invalid analysis response structure\<close>, or a TypeError (of a property access
  on \<open>null\<close> or \<open>undefined\<close>, of \<open>map\<close> on a value that is not an array, of a conversion
  to a number). The \<open>catch\<close> of \<open>parseAnalysisResponse\<close> turns each into an
  \<open>AIServiceError\<close>.
\<close>

fun traverse :: "('a \<Rightarrow> 'b option) \<Rightarrow> 'a list \<Rightarrow> 'b list option" where
  "traverse f [] = Some []"
| "traverse f (x # xs) =
     (case f x of None \<Rightarrow> None
      | Some y \<Rightarrow> (case traverse f xs of None \<Rightarrow> None | Some ys \<Rightarrow> Some (y # ys)))"

definition clampPosition :: "(jsval \<Rightarrow> jsnumber) \<Rightarrow> nat \<Rightarrow> jsval \<Rightarrow> Position option" where
  "clampPosition coerce len p =
     do {
       s \<leftarrow> ToNumber coerce (orElse (optProp p ''start'') (JNum (Fin 0)));
       e \<leftarrow> ToNumber coerce (orElse (optProp p ''end'') (JNum (Fin 0)));
       Some \<lparr> pstart = Math_max (Fin 0) s, pend = Math_min (Fin (of_nat len)) e \<rparr>
     }"

definition mapSuggestion :: "(jsval \<Rightarrow> jsnumber) \<Rightarrow> nat \<Rightarrow> jsval \<Rightarrow> Suggestion option" where
  "mapSuggestion coerce len s =
     do {
       p \<leftarrow> getProp s ''position'';
       pos \<leftarrow> clampPosition coerce len p;
       Some \<lparr> sg_type = orElse (optProp s ''type'') (JStr ''clarity''),
              sg_severity = orElse (optProp s ''severity'') (JStr ''low''),
              sg_description = orElse (optProp s ''description'') (JStr ''''),
              sg_originalText = orElse (optProp s ''originalText'') (JStr ''''),
              sg_suggestedText = orElse (optProp s ''suggestedText'') (JStr ''''),
              sg_position = pos \<rparr>
     }"

definition mapPhrase :: "(jsval \<Rightarrow> jsnumber) \<Rightarrow> nat \<Rightarrow> jsval \<Rightarrow> AmbiguousPhrase option" where
  "mapPhrase coerce len p =
     do {
       q \<leftarrow> getProp p ''position'';
       pos \<leftarrow> clampPosition coerce len q;
       Some \<lparr> ap_text = orElse (optProp p ''text'') (JStr ''''),
              ap_position = pos,
              ap_reason = orElse (optProp p ''reason'') (JStr ''''),
              ap_suggestions = (case optProp p ''suggestions'' of JArr xs \<Rightarrow> xs | _ \<Rightarrow> []) \<rparr>
     }"

definition clampScore :: "(jsval \<Rightarrow> jsnumber) \<Rightarrow> jsval \<Rightarrow> jsnumber option" where
  "clampScore coerce v =
     do {
       n \<leftarrow> ToNumber coerce (orElse v (JNum (Fin 5)));
       Some (Math_max (Fin 1) (Math_min (Fin 10) n))
     }"

definition asArray :: "jsval \<Rightarrow> jsval list option" where
  "asArray v = (case v of JArr xs \<Rightarrow> Some xs | _ \<Rightarrow> None)"

definition buildAnalysisResult ::
  "(jsval \<Rightarrow> jsnumber) \<Rightarrow> jsval \<Rightarrow> string \<Rightarrow> string \<Rightarrow> int \<Rightarrow> string \<Rightarrow> AnalysisResult option" where
  "buildAnalysisResult coerce analysisData originalContent pid now rnd =
     do {
       m \<leftarrow> getProp analysisData ''metrics'';
       ss \<leftarrow> (if truthy m then asArray (optProp analysisData ''suggestions'') else None);
       sgs \<leftarrow> traverse (mapSuggestion coerce (length originalContent)) ss;
       ps \<leftarrow> asArray (orElse (optProp analysisData ''ambiguousPhrases'') (JArr []));
       aps \<leftarrow> traverse (mapPhrase coerce (length originalContent)) ps;
       rs \<leftarrow> clampScore coerce (optProp m ''readabilityScore'');
       cs \<leftarrow> clampScore coerce (optProp m ''clarityScore'');
       Some \<lparr> ar_id = ''analysis-'' @ decimal now @ ''-'' @ rnd,
              postId = pid,
              timestamp = now,
              metrics =
                \<lparr> readabilityScore = rs,
                  clarityScore = cs,
                  toneAnalysis = orElse (optProp m ''toneAnalysis'') (JStr ''Neutral''),
                  targetAudience = orElse (optProp m ''targetAudience'') (JStr ''General audience'') \<rparr>,
              suggestions = sgs,
              ambiguousPhrases = aps \<rparr>
     }"

subsection \<open>Notions and examples for the properties of the parser\<close>

text \<open>A position inside a content of \<open>len\<close> code units: \<open>0 \<le> start \<le> end \<le> len\<close>.\<close>

definition validPosition :: "nat \<Rightarrow> Position \<Rightarrow> bool" where
  "validPosition len p =
     (num_le (Fin 0) (pstart p) \<and> num_le (pstart p) (pend p) \<and> num_le (pend p) (Fin (of_nat len)))"

definition inScoreRange :: "jsnumber \<Rightarrow> bool" where
  "inScoreRange x = (num_le (Fin 1) x \<and> num_le x (Fin 10))"

definition isInteger :: "jsnumber \<Rightarrow> bool" where
  "isInteger x = (case x of Fin q \<Rightarrow> q = of_int \<lfloor>q\<rfloor> | _ \<Rightarrow> False)"

text \<open>A number clamped into \<open>[lo, hi]\<close>: \<open>lo\<close> below it, \<open>hi\<close> above it, itself in between.\<close>

definition clampInto :: "jsnumber \<Rightarrow> jsnumber \<Rightarrow> jsnumber \<Rightarrow> jsnumber" where
  "clampInto lo hi n = (if num_le n lo then lo else if num_le hi n then hi else n)"

text \<open>
  What the parser requires of a value in the place of a score or of a position bound (its
  conversion to a number does not throw), of a position, and of an item of the
  suggestions and of the ambiguous phrases: the item is neither \<open>null\<close> nor
  \<open>undefined\<close>, and the two bounds of its position convert. None of the three reads a
  type or a severity.
\<close>

definition converts :: "jsval \<Rightarrow> bool" where
  "converts v = (\<not> toStringThrows v)"

definition positionConverts :: "jsval \<Rightarrow> bool" where
  "positionConverts p = (converts (optProp p ''start'') \<and> converts (optProp p ''end''))"

definition itemConverts :: "jsval \<Rightarrow> bool" where
  "itemConverts s = (s \<noteq> JNull \<and> s \<noteq> JUndefined \<and> positionConverts (optProp s ''position''))"

text \<open>
  The provider data that the parser accepts: \<open>metrics\<close> is truthy, \<open>suggestions\<close> is an
  array, \<open>ambiguousPhrases\<close> is falsy or an array, every item of the two arrays and the
  two scores convert.
\<close>

definition acceptsData :: "jsval \<Rightarrow> bool" where
  "acceptsData d =
     (case getProp d ''metrics'' of
        None \<Rightarrow> False
      | Some m \<Rightarrow>
          truthy m
          \<and> (case optProp d ''suggestions'' of JArr ss \<Rightarrow> list_all itemConverts ss | _ \<Rightarrow> False)
          \<and> (case orElse (optProp d ''ambiguousPhrases'') (JArr []) of
                JArr ps \<Rightarrow> list_all itemConverts ps | _ \<Rightarrow> False)
          \<and> converts (optProp m ''readabilityScore'')
          \<and> converts (optProp m ''clarityScore''))"

text \<open>
  A conversion for the examples below, none of which converts a string or an array to a
  number: it is never applied there.
\<close>

definition coerceNaN :: "jsval \<Rightarrow> jsnumber" where
  "coerceNaN v = NaN"

text \<open>
  Provider data with a suggestion at \<open>{start: 100, end: 5}\<close> and a phrase at
  \<open>{start: 2, end: -4}\<close>, for a content of ten code units.
\<close>

definition escapingData :: jsval where
  "escapingData = JObj
     [(''metrics'', JObj [(''readabilityScore'', JNum (Fin 7)), (''clarityScore'', JNum (Fin 6))]),
      (''suggestions'', JArr
         [JObj [(''type'', JStr ''clarity''), (''severity'', JStr ''low''),
                (''position'', JObj [(''start'', JNum (Fin 100)), (''end'', JNum (Fin 5))])]]),
      (''ambiguousPhrases'', JArr
         [JObj [(''text'', JStr ''stuff''),
                (''position'', JObj [(''start'', JNum (Fin 2)), (''end'', JNum (Fin (- 4)))])]])]"

definition escapingResult :: AnalysisResult where
  "escapingResult =
     \<lparr> ar_id = ''analysis-1000-k3j9x2m1q'',
       postId = ''post-1'',
       timestamp = 1000,
       metrics = \<lparr> readabilityScore = Fin 7, clarityScore = Fin 6,
                   toneAnalysis = JStr ''Neutral'', targetAudience = JStr ''General audience'' \<rparr>,
       suggestions =
         [\<lparr> sg_type = JStr ''clarity'', sg_severity = JStr ''low'', sg_description = JStr '''',
            sg_originalText = JStr '''', sg_suggestedText = JStr '''',
            sg_position = \<lparr> pstart = Fin 100, pend = Fin 5 \<rparr> \<rparr>],
       ambiguousPhrases =
         [\<lparr> ap_text = JStr ''stuff'', ap_position = \<lparr> pstart = Fin 2, pend = Fin (- 4) \<rparr>,
            ap_reason = JStr '''', ap_suggestions = [] \<rparr>] \<rparr>"

text \<open>
  Provider data whose readability score is an object and whose clarity score is 7.5.
\<close>

definition oddScoresData :: jsval where
  "oddScoresData = JObj
     [(''metrics'', JObj [(''readabilityScore'', JObj []), (''clarityScore'', JNum (Fin (15 / 2)))]),
      (''suggestions'', JArr [])]"

definition oddScoresResult :: AnalysisResult where
  "oddScoresResult =
     \<lparr> ar_id = ''analysis-1000-k3j9x2m1q'',
       postId = ''post-1'',
       timestamp = 1000,
       metrics = \<lparr> readabilityScore = NaN, clarityScore = Fin (15 / 2),
                   toneAnalysis = JStr ''Neutral'', targetAudience = JStr ''General audience'' \<rparr>,
       suggestions = [],
       ambiguousPhrases = [] \<rparr>"

text \<open>
  The scenario of the specification: a readability score of 15; the clarity score is
  absent.
\<close>

definition highScoreData :: jsval where
  "highScoreData = JObj
     [(''metrics'', JObj [(''readabilityScore'', JNum (Fin 15)), (''toneAnalysis'', JStr ''Formal'')]),
      (''suggestions'', JArr [])]"

definition highScoreResult :: AnalysisResult where
  "highScoreResult =
     \<lparr> ar_id = ''analysis-1000-k3j9x2m1q'',
       postId = ''post-1'',
       timestamp = 1000,
       metrics = \<lparr> readabilityScore = Fin 10, clarityScore = Fin 5,
                   toneAnalysis = JStr ''Formal'', targetAudience = JStr ''General audience'' \<rparr>,
       suggestions = [],
       ambiguousPhrases = [] \<rparr>"

text \<open>
  Provider data with a suggestion of type \<open>style\<close> and severity \<open>critical\<close>, and one
  with no type and the severity \<open>high\<close>.
\<close>

definition unknownTypeData :: jsval where
  "unknownTypeData = JObj
     [(''metrics'', JObj [(''readabilityScore'', JNum (Fin 7)), (''clarityScore'', JNum (Fin 6))]),
      (''suggestions'', JArr
         [JObj [(''type'', JStr ''style''), (''severity'', JStr ''critical''),
                (''description'', JStr ''Shorten.'')]])]"

definition unknownTypeResult :: AnalysisResult where
  "unknownTypeResult =
     \<lparr> ar_id = ''analysis-1000-k3j9x2m1q'',
       postId = ''post-1'',
       timestamp = 1000,
       metrics = \<lparr> readabilityScore = Fin 7, clarityScore = Fin 6,
                   toneAnalysis = JStr ''Neutral'', targetAudience = JStr ''General audience'' \<rparr>,
       suggestions =
         [\<lparr> sg_type = JStr ''style'', sg_severity = JStr ''critical'',
            sg_description = JStr ''Shorten.'',
            sg_originalText = JStr '''', sg_suggestedText = JStr '''',
            sg_position = \<lparr> pstart = Fin 0, pend = Fin 0 \<rparr> \<rparr>],
       ambiguousPhrases = [] \<rparr>"

definition missingTypeData :: jsval where
  "missingTypeData = JObj
     [(''metrics'', JObj [(''readabilityScore'', JNum (Fin 7)), (''clarityScore'', JNum (Fin 6))]),
      (''suggestions'', JArr
         [JObj [(''severity'', JStr ''high''), (''description'', JStr ''Shorten.'')]])]"

definition missingTypeResult :: AnalysisResult where
  "missingTypeResult =
     \<lparr> ar_id = ''analysis-1000-k3j9x2m1q'',
       postId = ''post-1'',
       timestamp = 1000,
       metrics = \<lparr> readabilityScore = Fin 7, clarityScore = Fin 6,
                   toneAnalysis = JStr ''Neutral'', targetAudience = JStr ''General audience'' \<rparr>,
       suggestions =
         [\<lparr> sg_type = JStr ''clarity'', sg_severity = JStr ''high'',
            sg_description = JStr ''Shorten.'',
            sg_originalText = JStr '''', sg_suggestedText = JStr '''',
            sg_position = \<lparr> pstart = Fin 0, pend = Fin 0 \<rparr> \<rparr>],
       ambiguousPhrases = [] \<rparr>"

text \<open>
  Provider data whose clarity score is the object \<open>{"toString": 1}\<close>, and provider data
  with a suggestion whose start is the array \<open>[[{"toString": null}]]\<close>.
\<close>

definition throwingScoreData :: jsval where
  "throwingScoreData = JObj
     [(''metrics'', JObj [(''readabilityScore'', JNum (Fin 7)),
                          (''clarityScore'', JObj [(''toString'', JNum (Fin 1))])]),
      (''suggestions'', JArr [])]"

definition throwingPositionData :: jsval where
  "throwingPositionData = JObj
     [(''metrics'', JObj [(''readabilityScore'', JNum (Fin 7)), (''clarityScore'', JNum (Fin 6))]),
      (''suggestions'', JArr
         [JObj [(''type'', JStr ''clarity''),
                (''position'', JObj [(''start'', JArr [JArr [JObj [(''toString'', JNull)]]]),
                                     (''end'', JNum (Fin 5))])]])]"

section \<open>Regular expressions\<close>

text \<open>
  The code works on text with regular expressions. They are modelled by their syntax
  trees and a backtracking matcher that returns every way a pattern can match at a
  position, in the order in which the engine of the language tries them: the first
  one is the match the engine reports. A state is the text before the position
  (reversed), the text from the position on, and the text of capture group 1.
\<close>

datatype cls =
    Lit char              \<comment> \<open>the character itself\<close>
  | LitI char             \<comment> \<open>a letter under the \<open>i\<close> flag: either case\<close>
  | Dot                   \<comment> \<open>\<open>.\<close>: any character but a line terminator\<close>
  | Space                 \<comment> \<open>\<open>\\s\<close>\<close>
  | WordC                 \<comment> \<open>\<open>\\w\<close>\<close>
  | OneOf "char list"     \<comment> \<open>\<open>[...]\<close>\<close>
  | NoneOf "char list"    \<comment> \<open>\<open>[^...]\<close>\<close>
  | AnyChar               \<comment> \<open>\<open>[\\s\\S]\<close>\<close>

datatype regex =
    Eps
  | C cls
  | Seq regex regex
  | Alt regex regex
  | Star regex            \<comment> \<open>\<open>r*\<close>, greedy\<close>
  | StarLazy regex        \<comment> \<open>\<open>r*?\<close>\<close>
  | Bol                   \<comment> \<open>\<open>^\<close>\<close>
  | Eol                   \<comment> \<open>\<open>$\<close>\<close>
  | WordB                 \<comment> \<open>\<open>\\b\<close>\<close>
  | Cap regex             \<comment> \<open>capture group 1\<close>

type_synonym mstate = "string \<times> string \<times> string option"

definition isLineTerminator :: "char \<Rightarrow> bool" where
  "isLineTerminator c = (c = CHR 0x0A \<or> c = CHR 0x0D)"

fun accepts :: "cls \<Rightarrow> char \<Rightarrow> bool" where
  "accepts (Lit a) c = (c = a)"
| "accepts (LitI a) c = (toLowerChar c = toLowerChar a)"
| "accepts Dot c = (\<not> isLineTerminator c)"
| "accepts Space c = isSpace c"
| "accepts WordC c = isWord c"
| "accepts (OneOf as) c = (c \<in> set as)"
| "accepts (NoneOf as) c = (c \<notin> set as)"
| "accepts AnyChar c = True"

definition wordAt :: "string \<Rightarrow> bool" where
  "wordAt s = (case s of [] \<Rightarrow> False | c # _ \<Rightarrow> isWord c)"

definition shorter :: "mstate \<Rightarrow> mstate \<Rightarrow> bool" where
  "shorter st st' = (length (fst (snd st')) < length (fst (snd st)))"

text \<open>
  An iteration of a star that does not advance is rejected, as the language's
  matcher does; this is also why the recursion ends.
\<close>

function matches :: "regex \<Rightarrow> mstate \<Rightarrow> mstate list" where
  "matches Eps st = [st]"
| "matches (C k) st =
     (case st of (b, r, g) \<Rightarrow>
        (case r of [] \<Rightarrow> [] | c # cs \<Rightarrow> if accepts k c then [(c # b, cs, g)] else []))"
| "matches (Seq p q) st = concat (map (matches q) (matches p st))"
| "matches (Alt p q) st = matches p st @ matches q st"
| "matches (Star p) st = concat (map (matches (Star p)) (filter (shorter st) (matches p st))) @ [st]"
| "matches (StarLazy p) st = st # concat (map (matches (StarLazy p)) (filter (shorter st) (matches p st)))"
| "matches Bol st = (if fst st = [] then [st] else [])"
| "matches Eol st = (if fst (snd st) = [] then [st] else [])"
| "matches WordB st = (if wordAt (fst st) \<noteq> wordAt (fst (snd st)) then [st] else [])"
| "matches (Cap p) st =
     map (\<lambda>(b', r', g'). (b', r', Some (rev (take (length b' - length (fst st)) b')))) (matches p st)"
  by pat_completeness auto
termination
  by (relation "measures [\<lambda>(p, st). size p, \<lambda>(p, st). length (fst (snd st))]")
     (auto simp: shorter_def)

declare matches.simps [simp del]

definition plus :: "regex \<Rightarrow> regex" where
  "plus p = Seq p (Star p)"

definition lit :: "string \<Rightarrow> regex" where
  "lit s = foldr (\<lambda>c p. Seq (C (Lit c)) p) s Eps"

definition litI :: "string \<Rightarrow> regex" where
  "litI s = foldr (\<lambda>c p. Seq (C (LitI c)) p) s Eps"



fun alts :: "regex list \<Rightarrow> regex" where
  "alts [] = Alt Eps Eps"
| "alts [p] = p"
| "alts (p # ps) = Alt p (alts ps)"

text \<open>
  The first match at or after a position (what \<open>exec\<close>, \<open>match\<close> and \<open>replace\<close> look
  for): the state where it starts and the state where it ends.
\<close>

fun search :: "regex \<Rightarrow> string \<Rightarrow> string \<Rightarrow> (mstate \<times> mstate) option" where
  "search p b [] =
     (case matches p (b, [], None) of [] \<Rightarrow> None | m # _ \<Rightarrow> Some ((b, [], None), m))"
| "search p b (c # cs) =
     (case matches p (b, c # cs, None) of [] \<Rightarrow> search p (c # b) cs
      | m # _ \<Rightarrow> Some ((b, c # cs, None), m))"

text \<open>The index of a match, the index of its end and its text (\<open>m.index\<close>, \<open>m[0]\<close>).\<close>

definition matchIndex :: "mstate \<times> mstate \<Rightarrow> nat" where
  "matchIndex m = length (fst (fst m))"

definition matchEnd :: "mstate \<times> mstate \<Rightarrow> nat" where
  "matchEnd m = length (fst (snd m))"

definition matchText :: "mstate \<times> mstate \<Rightarrow> string" where
  "matchText m = rev (take (matchEnd m - matchIndex m) (fst (snd m)))"

section \<open>JSON texts\<close>

text \<open>
  Whether \<open>JSON.parse\<close> accepts a text: the JSON grammar. The value the text denotes is
  not computed. The fuel bounds the depth of the calls; every second call at the
  latest consumes a character, so twice the length of the text is enough.
\<close>

abbreviation dq :: char where
  "dq \<equiv> CHR 0x22"

abbreviation backslash :: char where
  "backslash \<equiv> CHR 0x5C"

definition isJsonWs :: "char \<Rightarrow> bool" where
  "isJsonWs c = (c \<in> {CHR 0x20, CHR 0x09, CHR 0x0A, CHR 0x0D})"

definition skipWs :: "string \<Rightarrow> string" where
  "skipWs s = dropWhile isJsonWs s"

definition isDigit :: "char \<Rightarrow> bool" where
  "isDigit c = (let n = (of_char c :: int) in 48 \<le> n \<and> n \<le> 57)"

definition isHexDigit :: "char \<Rightarrow> bool" where
  "isHexDigit c = (let n = (of_char c :: int) in
     (48 \<le> n \<and> n \<le> 57) \<or> (65 \<le> n \<and> n \<le> 70) \<or> (97 \<le> n \<and> n \<le> 102))"

text \<open>The rest of a string literal, after its opening quote; returns what follows it.\<close>

fun jsonStringTail :: "string \<Rightarrow> string option" where
  "jsonStringTail [] = None"
| "jsonStringTail (c # cs) =
     (if c = dq then Some cs
      else if c = backslash then
        (case cs of [] \<Rightarrow> None
         | e # es \<Rightarrow>
             if e \<in> set (dq # backslash # ''/bfnrt'') then jsonStringTail es
             else if e = CHR ''u'' \<and> 4 \<le> length es \<and> list_all isHexDigit (take 4 es)
               then jsonStringTail (drop 4 es)
             else None)
      else if (of_char c :: int) < 32 then None
      else jsonStringTail cs)"

definition jsonExponent :: "string \<Rightarrow> string option" where
  "jsonExponent s =
     (case s of [] \<Rightarrow> Some s
      | e # r \<Rightarrow>
          if e = CHR ''e'' \<or> e = CHR ''E'' then
            (let r' = (case r of [] \<Rightarrow> r | g # t \<Rightarrow> if g = CHR ''+'' \<or> g = CHR ''-'' then t else r)
             in case r' of [] \<Rightarrow> None
                | d # t \<Rightarrow> if isDigit d then Some (dropWhile isDigit t) else None)
          else Some s)"

definition jsonFraction :: "string \<Rightarrow> string option" where
  "jsonFraction s =
     (case s of [] \<Rightarrow> jsonExponent s
      | p # r \<Rightarrow>
          if p = CHR ''.'' then
            (case r of [] \<Rightarrow> None
             | d # t \<Rightarrow> if isDigit d then jsonExponent (dropWhile isDigit t) else None)
          else jsonExponent s)"

definition jsonNumber :: "string \<Rightarrow> string option" where
  "jsonNumber s =
     (let s1 = (case s of [] \<Rightarrow> s | m # r \<Rightarrow> if m = CHR ''-'' then r else s)
      in case s1 of [] \<Rightarrow> None
         | d # r \<Rightarrow>
             if d = CHR ''0'' then jsonFraction r
             else if isDigit d then jsonFraction (dropWhile isDigit r)
             else None)"

definition jsonWord :: "string \<Rightarrow> string \<Rightarrow> string option" where
  "jsonWord w s = (if take (length w) s = w then Some (drop (length w) s) else None)"

fun jsonValue :: "nat \<Rightarrow> string \<Rightarrow> string option"
  and jsonElements :: "nat \<Rightarrow> string \<Rightarrow> string option"
  and jsonMembers :: "nat \<Rightarrow> string \<Rightarrow> string option" where
  "jsonValue 0 s = None"
| "jsonValue (Suc n) s =
     (case skipWs s of [] \<Rightarrow> None
      | c # cs \<Rightarrow>
          if c = CHR ''['' then
            (case skipWs cs of [] \<Rightarrow> None
             | d # ds \<Rightarrow> if d = CHR '']'' then Some ds else jsonElements n cs)
          else if c = CHR ''{'' then
            (case skipWs cs of [] \<Rightarrow> None
             | d # ds \<Rightarrow> if d = CHR ''}'' then Some ds else jsonMembers n cs)
          else if c = dq then jsonStringTail cs
          else if c = CHR ''t'' then jsonWord ''true'' (c # cs)
          else if c = CHR ''f'' then jsonWord ''false'' (c # cs)
          else if c = CHR ''n'' then jsonWord ''null'' (c # cs)
          else jsonNumber (c # cs))"
| "jsonElements 0 s = None"
| "jsonElements (Suc n) s =
     (case jsonValue n s of None \<Rightarrow> None
      | Some r \<Rightarrow>
          (case skipWs r of [] \<Rightarrow> None
           | c # cs \<Rightarrow>
               if c = CHR '','' then jsonElements n cs
               else if c = CHR '']'' then Some cs
               else None))"
| "jsonMembers 0 s = None"
| "jsonMembers (Suc n) s =
     (case skipWs s of [] \<Rightarrow> None
      | q # ks \<Rightarrow>
          if q = dq then
            (case jsonStringTail ks of None \<Rightarrow> None
             | Some r \<Rightarrow>
                 (case skipWs r of [] \<Rightarrow> None
                  | c # cs \<Rightarrow>
                      if c = CHR '':'' then
                        (case jsonValue n cs of None \<Rightarrow> None
                         | Some u \<Rightarrow>
                             (case skipWs u of [] \<Rightarrow> None
                              | e # es \<Rightarrow>
                                  if e = CHR '','' then jsonMembers n es
                                  else if e = CHR ''}'' then Some es
                                  else None))
                      else None))
          else None)"


section \<open>ResponseRepairer\<close>

text \<open>
  \<open>attemptJSONRepair\<close>. The result \<open>None\<close> is the \<open>null\<close> of the source, which it
  returns both for "no repair needed" and for a failed repair (an exception of
  \<open>JSON.parse\<close> is caught). The parameter \<open>valid\<close> is \<open>JSON.parse\<close> not throwing.
\<close>

definition seqs :: "regex list \<Rightarrow> regex" where
  "seqs ps = foldr Seq ps Eps"

definition countChar :: "char \<Rightarrow> string \<Rightarrow> nat" where
  "countChar c s = length (filter (\<lambda>x. x = c) s)"

definition lastIndexOf :: "char \<Rightarrow> string \<Rightarrow> int" where
  "lastIndexOf c s = int (length (dropWhile (\<lambda>x. x \<noteq> c) (rev s))) - 1"

text \<open>\<open>s.replace(p, '')\<close> for a pattern without the \<open>g\<close> flag.\<close>

definition removeFirst :: "regex \<Rightarrow> string \<Rightarrow> string" where
  "removeFirst p s =
     (case search p [] s of None \<Rightarrow> s
      | Some ((b, _, _), (_, r, _)) \<Rightarrow> rev b @ r)"

text \<open>\<open>/(.*?)"[^"]*"\\s*:\\s*"[^"]*$/\<close>\<close>

definition incompleteStringRe :: regex where
  "incompleteStringRe =
     seqs [Cap (StarLazy (C Dot)), C (Lit dq), Star (C (NoneOf [dq])), C (Lit dq),
           Star (C Space), C (Lit CHR '':''), Star (C Space),
           C (Lit dq), Star (C (NoneOf [dq])), Eol]"

text \<open>\<open>/,\\s*$/\<close>\<close>

definition trailingCommaRe :: regex where
  "trailingCommaRe = seqs [C (Lit CHR '',''), Star (C Space), Eol]"

text \<open>\<open>/^\\s*"[^"]+"\\s*:\\s*[^,}\\]]+[}\\]]/\<close>\<close>

definition completeMemberRe :: regex where
  "completeMemberRe =
     seqs [Bol, Star (C Space), C (Lit dq), plus (C (NoneOf [dq])), C (Lit dq),
           Star (C Space), C (Lit CHR '':''), Star (C Space),
           plus (C (NoneOf '',}]'')), C (OneOf ''}]'')]"

text \<open>
  The four strategies of the repair, applied when the text has unmatched opening braces
  or brackets; the counts are those of the trimmed input.
\<close>

definition repairStrategies :: "string \<Rightarrow> nat \<Rightarrow> nat \<Rightarrow> nat \<Rightarrow> nat \<Rightarrow> string" where
  "repairStrategies repaired0 openBraces closeBraces openBrackets closeBrackets =
     (let repaired1 =
            (case search incompleteStringRe [] repaired0 of
               Some (_, (_, _, Some g)) \<Rightarrow> removeFirst trailingCommaRe g
             | _ \<Rightarrow> repaired0);
          lastCommaIndex = lastIndexOf CHR '','' repaired1;
          lastOpenBrace = lastIndexOf CHR ''{'' repaired1;
          lastOpenBracket = lastIndexOf CHR ''['' repaired1;
          repaired2 =
            (if lastCommaIndex > max lastOpenBrace lastOpenBracket then
               (let afterComma = trim (drop (nat (lastCommaIndex + 1)) repaired1)
                in if afterComma \<noteq> [] \<and> search completeMemberRe [] afterComma = None
                   then take (nat lastCommaIndex) repaired1
                   else repaired1)
             else repaired1);
          repaired3 =
            (if odd (countChar dq repaired2) then repaired2 @ [dq] else repaired2)
      in repaired3 @ replicate (openBrackets - closeBrackets) CHR '']''
                   @ replicate (openBraces - closeBraces) CHR ''}'')"

definition attemptJSONRepair :: "(string \<Rightarrow> bool) \<Rightarrow> string \<Rightarrow> string option" where
  "attemptJSONRepair valid jsonString =
     (let repaired0 = trim jsonString;
          openBraces = countChar CHR ''{'' repaired0;
          closeBraces = countChar CHR ''}'' repaired0;
          openBrackets = countChar CHR ''['' repaired0;
          closeBrackets = countChar CHR '']'' repaired0
      in if openBraces > closeBraces \<or> openBrackets > closeBrackets then
           (let repaired4 =
                  repairStrategies repaired0 openBraces closeBraces openBrackets closeBrackets
            in if valid repaired4 then Some repaired4 else None)
         else None)"

subsection \<open>Examples for the properties of the repairer\<close>






section \<open>AnalysisParser: from the provider's response to the parsed data\<close>

text \<open>
  \<open>extractTextFromResponse\<close>: \<open>response.choices[0]?.message?.content || ''\<close>; \<open>None\<close> is
  the \<open>AIServiceError\<close> that its \<open>catch\<close> throws when the access fails.
\<close>

definition index0 :: "jsval \<Rightarrow> jsval option" where
  "index0 v =
     (case v of
        JUndefined \<Rightarrow> None
      | JNull \<Rightarrow> None
      | JArr xs \<Rightarrow> (case xs of [] \<Rightarrow> Some JUndefined | x # _ \<Rightarrow> Some x)
      | JStr s \<Rightarrow> (case s of [] \<Rightarrow> Some JUndefined | c # _ \<Rightarrow> Some (JStr [c]))
      | JObj kvs \<Rightarrow> getProp (JObj kvs) ''0''
      | _ \<Rightarrow> Some JUndefined)"

definition extractTextFromResponse :: "jsval \<Rightarrow> jsval option" where
  "extractTextFromResponse response =
     do {
       choices \<leftarrow> getProp response ''choices'';
       first \<leftarrow> index0 choices;
       Some (orElse (optProp (optProp first ''message'') ''content'') (JStr []))
     }"

text \<open>
  The patterns that strip a Markdown code fence and cut the text from the first \<open>{\<close> to
  the last \<open>}\<close>: \<open>/^```json\\s*/\<close>, \<open>/^```\\s*/\<close>, \<open>/\\s*```$/\<close>, \<open>/\\{[\\s\\S]*\\}/\<close>.
\<close>

definition fenceJsonRe :: regex where
  "fenceJsonRe = seqs [Bol, lit ''```json'', Star (C Space)]"

definition fenceRe :: regex where
  "fenceRe = seqs [Bol, lit ''```'', Star (C Space)]"

definition fenceEndRe :: regex where
  "fenceEndRe = seqs [Star (C Space), lit ''```'', Eol]"

definition objectRe :: regex where
  "objectRe = seqs [C (Lit CHR ''{''), Star (C AnyChar), C (Lit CHR ''}'')]"

definition startsWith :: "string \<Rightarrow> string \<Rightarrow> bool" where
  "startsWith s t = (take (length t) s = t)"

definition cleanResponseText :: "string \<Rightarrow> string" where
  "cleanResponseText content =
     (let trimmed = trim content;
          unfenced =
            (if startsWith trimmed ''```json'' then removeFirst fenceEndRe (removeFirst fenceJsonRe trimmed)
             else if startsWith trimmed ''```'' then removeFirst fenceEndRe (removeFirst fenceRe trimmed)
             else trimmed)
      in case search objectRe [] unfenced of
           None \<Rightarrow> unfenced
         | Some m \<Rightarrow> matchText m)"

text \<open>
  The data that \<open>parseAnalysisResponse\<close> parses out of the response. \<open>JSON_parse\<close> is the
  platform's \<open>JSON.parse\<close> (\<open>None\<close> where it throws). A text that does not parse goes
  through the repairer, and the repaired text is parsed. \<open>None\<close> is an exception inside
  the \<open>try\<close> block: no text in the response, a text that is not a string, an empty
  text, or a text that neither parses nor can be repaired.
\<close>

definition parseResponseData :: "(string \<Rightarrow> jsval option) \<Rightarrow> jsval \<Rightarrow> jsval option" where
  "parseResponseData JSON_parse response =
     do {
       content \<leftarrow> extractTextFromResponse response;
       text \<leftarrow> (case content of JStr s \<Rightarrow> if trim s = [] then None else Some s | _ \<Rightarrow> None);
       (let cleanContent = cleanResponseText text
        in case JSON_parse cleanContent of
             Some analysisData \<Rightarrow> Some analysisData
           | None \<Rightarrow>
               (case attemptJSONRepair (\<lambda>s. JSON_parse s \<noteq> None) cleanContent of
                  None \<Rightarrow> None
                | Some fixedJSON \<Rightarrow> if fixedJSON = [] then None else JSON_parse fixedJSON))
     }"

text \<open>
  \<open>parseAnalysisResponse\<close>: every exception of the \<open>try\<close> block becomes the
  \<open>AIServiceError\<close> "Failed to parse analysis results".
\<close>

definition parseAnalysisResponse ::
  "(string \<Rightarrow> jsval option) \<Rightarrow> (jsval \<Rightarrow> jsnumber) \<Rightarrow> jsval \<Rightarrow> string \<Rightarrow> string \<Rightarrow> int \<Rightarrow> string
   \<Rightarrow> error + AnalysisResult" where
  "parseAnalysisResponse JSON_parse coerce response originalContent pid now rnd =
     (case parseResponseData JSON_parse response of
        None \<Rightarrow> Inl UnparsableAnalysisError
      | Some analysisData \<Rightarrow>
          (case buildAnalysisResult coerce analysisData originalContent pid now rnd of
             None \<Rightarrow> Inl UnparsableAnalysisError
           | Some r \<Rightarrow> Inr r))"

section \<open>Text operations of the heuristic analyzer\<close>

lemma matches_suffix:
  "st' \<in> set (matches p st) \<Longrightarrow>
     rev (fst st') @ fst (snd st') = rev (fst st) @ fst (snd st)
     \<and> length (fst (snd st')) \<le> length (fst (snd st))"
proof (induction p st arbitrary: st' rule: matches.induct)
  case (1 st)
  then show ?case by (simp add: matches.simps(1))
next
  case (2 k st)
  obtain b r g where st: "st = (b, r, g)" by (cases st) auto
  show ?case
  proof (cases r)
    case Nil
    with 2 st show ?thesis by (simp add: matches.simps(2))
  next
    case (Cons c cs)
    with 2 st show ?thesis by (simp add: matches.simps(2) split: if_splits)
  qed
next
  case (3 p q st)
  from "3.prems" have "st' \<in> set (concat (map (matches q) (matches p st)))"
    by (simp only: matches.simps(3))
  then obtain m where m: "m \<in> set (matches p st)" and s: "st' \<in> set (matches q m)"
    by auto
  from "3.IH"(1) [OF m] "3.IH"(2) [OF m s] show ?case by simp
next
  case (4 p q st)
  from "4.prems" have "st' \<in> set (matches p st @ matches q st)"
    by (simp only: matches.simps(4))
  then have "st' \<in> set (matches p st) \<or> st' \<in> set (matches q st)" by simp
  with "4.IH" show ?case by blast
next
  case (5 p st)
  from "5.prems"
  have "st' \<in> set (concat (map (matches (Star p)) (filter (shorter st) (matches p st))) @ [st])"
    by (simp only: matches.simps(5))
  then consider "st' = st"
    | m where "m \<in> set (matches p st)" "shorter st m" "st' \<in> set (matches (Star p) m)"
    by auto
  then show ?case
  proof cases
    case 1
    then show ?thesis by simp
  next
    case 2
    from "5.IH"(1) [OF 2(1)] "5.IH"(2) [of m st'] 2 show ?thesis by simp
  qed
next
  case (6 p st)
  from "6.prems"
  have "st' \<in> set (st # concat (map (matches (StarLazy p)) (filter (shorter st) (matches p st))))"
    by (simp only: matches.simps(6))
  then consider "st' = st"
    | m where "m \<in> set (matches p st)" "shorter st m" "st' \<in> set (matches (StarLazy p) m)"
    by auto
  then show ?case
  proof cases
    case 1
    then show ?thesis by simp
  next
    case 2
    from "6.IH"(1) [OF 2(1)] "6.IH"(2) [of m st'] 2 show ?thesis by simp
  qed
next
  case (7 st)
  then show ?case by (simp add: matches.simps(7) split: if_splits)
next
  case (8 st)
  then show ?case by (simp add: matches.simps(8) split: if_splits)
next
  case (9 st)
  then show ?case by (simp add: matches.simps(9) split: if_splits)
next
  case (10 p st)
  from "10.prems" obtain m where m: "m \<in> set (matches p st)"
    and e: "fst st' = fst m" "fst (snd st') = fst (snd m)"
    by (auto simp: matches.simps(10) split: prod.splits)
  from "10.IH" [OF m] e show ?case by simp
qed

lemma search_suffix:
  "search p b r = Some (st, st') \<Longrightarrow>
     rev (fst st) @ fst (snd st) = rev b @ r \<and> length (fst (snd st)) \<le> length r
     \<and> rev (fst st') @ fst (snd st') = rev b @ r \<and> length (fst (snd st')) \<le> length (fst (snd st))"
proof (induction r arbitrary: b)
  case Nil
  then obtain m ms where ms: "matches p (b, [], None) = m # ms" and e: "st = (b, [], None)" "st' = m"
    by (auto split: list.splits)
  from ms have mem: "m \<in> set (matches p (b, [], None))" by simp
  have a: "rev (fst m) @ fst (snd m) = rev b"
    using matches_suffix [THEN conjunct1, OF mem] by simp
  have n: "length (fst (snd m)) \<le> 0"
    using matches_suffix [THEN conjunct2, OF mem] by simp
  show ?case unfolding e using a n by simp
next
  case (Cons c cs)
  show ?case
  proof (cases "matches p (b, c # cs, None)")
    case Nil
    with Cons.prems have "search p (c # b) cs = Some (st, st')" by simp
    from Cons.IH [OF this] show ?thesis by simp
  next
    case (Cons m ms)
    with Cons.prems have e: "st = (b, c # cs, None)" "st' = m" by simp_all
    from Cons have mem: "m \<in> set (matches p (b, c # cs, None))" by simp
    have a: "rev (fst m) @ fst (snd m) = rev b @ c # cs"
      using matches_suffix [THEN conjunct1, OF mem] by simp
    have n: "length (fst (snd m)) \<le> Suc (length cs)"
      using matches_suffix [THEN conjunct2, OF mem] by simp
    show ?thesis unfolding e using a n by simp
  qed
qed

lemma search_start_length: "search p b r = Some (st, st') \<Longrightarrow> length (fst (snd st)) \<le> length r"
  using search_suffix [of p b r st st'] by blast

lemma search_end_length:
  "search p b r = Some (st, st') \<Longrightarrow> length (fst (snd st')) \<le> length (fst (snd st))"
  using search_suffix [of p b r st st'] by blast

text \<open>
  All matches of a pattern with the \<open>g\<close> flag, from left to right (\<open>s.match(p)\<close>, and the
  loop \<open>while ((m = p.exec(s)) !== null)\<close>): the search resumes where the last match ended,
  one character further after an empty match.
\<close>

function allMatchesFrom :: "regex \<Rightarrow> string \<Rightarrow> string \<Rightarrow> (mstate \<times> mstate) list" where
  "allMatchesFrom p b r =
     (case search p b r of None \<Rightarrow> []
      | Some (st, st') \<Rightarrow>
          (st, st') #
          (if length (fst (snd st')) < length (fst (snd st)) then allMatchesFrom p (fst st') (fst (snd st'))
           else (case fst (snd st') of [] \<Rightarrow> []
                 | c # cs \<Rightarrow> allMatchesFrom p (c # fst st') cs)))"
  by pat_completeness auto
termination
proof (relation "measure (\<lambda>(p, b, r). length r)")
  show "wf (measure (\<lambda>(p, b, r). length r))" by simp
next
  fix p b r x st st'
  assume "search p b r = Some x" "(st, st') = x"
    and lt: "length (fst (snd st')) < length (fst (snd st))"
  then have "search p b r = Some (st, st')" by simp
  from search_start_length [OF this] lt
  show "((p, fst st', fst (snd st')), (p, b, r)) \<in> measure (\<lambda>(p, b, r). length r)"
    by simp
next
  fix p b r x st st' c cs
  assume "search p b r = Some x" "(st, st') = x" and c: "fst (snd st') = c # cs"
  then have s: "search p b r = Some (st, st')" by simp
  from search_start_length [OF s] search_end_length [OF s] c
  show "((p, c # fst st', cs), (p, b, r)) \<in> measure (\<lambda>(p, b, r). length r)"
    by simp
qed

declare allMatchesFrom.simps [simp del]

definition allMatches :: "regex \<Rightarrow> string \<Rightarrow> (mstate \<times> mstate) list" where
  "allMatches p s = allMatchesFrom p [] s"

text \<open>
  \<open>s.split(p)\<close>: the pattern is tried at each index \<open>q\<close> from the start \<open>p\<close> of the
  current piece; a match that ends at \<open>p\<close> is skipped; the text after the last
  separator is the last piece. \<open>cur\<close> is the current piece, reversed.
\<close>

function splitGo :: "regex \<Rightarrow> string \<Rightarrow> string \<Rightarrow> string \<Rightarrow> string list" where
  "splitGo p cur b [] = [rev cur]"
| "splitGo p cur b (c # cs) =
     (case matches p (b, c # cs, None) of
        [] \<Rightarrow> splitGo p (c # cur) (c # b) cs
      | m # _ \<Rightarrow>
          if length (fst (snd m)) < length (c # cs) then rev cur # splitGo p [] (fst m) (fst (snd m))
          else if cur = [] then splitGo p [c] (c # b) cs
          else rev cur # splitGo p [] b (c # cs))"
  by pat_completeness auto
termination
  by (relation "measures [\<lambda>(p, cur, b, r). length r, \<lambda>(p, cur, b, r). length cur]") auto

declare splitGo.simps [simp del]

definition splitRe :: "regex \<Rightarrow> string \<Rightarrow> string list" where
  "splitRe p s =
     (if s = [] then (if matches p ([], [], None) = [] then [[]] else [])
      else splitGo p [] [] s)"

text \<open>\<open>s.includes(t)\<close>\<close>

definition includesStr :: "string \<Rightarrow> string \<Rightarrow> bool" where
  "includesStr s t = list_ex (\<lambda>i. take (length t) (drop i s) = t) [0..<Suc (length s)]"

text \<open>\<open>xs.join(', ')\<close>\<close>

fun joinComma :: "string list \<Rightarrow> string" where
  "joinComma [] = []"
| "joinComma [x] = x"
| "joinComma (x # xs) = x @ '', '' @ joinComma xs"

section \<open>HeuristicAnalyzer\<close>

record BasicMetrics =
  bm_readabilityScore :: int
  bm_clarityScore :: int
  bm_toneAnalysis :: string
  bm_targetAudience :: string
  wordCount :: nat
  sentenceCount :: nat
  paragraphCount :: nat
  avgWordsPerSentence :: rat
  avgSentencesPerParagraph :: rat

subsection \<open>analyzeTone\<close>

definition formalIndicators :: "string list" where
  "formalIndicators = [''therefore'', ''however'', ''furthermore'', ''consequently'', ''nevertheless'']"

definition casualIndicators :: "string list" where
  "casualIndicators = [''just'', ''really'', ''pretty'', ''kinda'', ''gonna'', ''wanna'']"

definition technicalIndicators :: "string list" where
  "technicalIndicators = [''implement'', ''configure'', ''optimize'', ''analyze'', ''framework'']"

definition emotionalIndicators :: "string list" where
  "emotionalIndicators = [''amazing'', ''terrible'', ''love'', ''hate'', ''excited'', ''frustrated'']"

text \<open>\<open>new RegExp(`\\b${word}\\b`, 'g')\<close>\<close>

definition indicatorRe :: "string \<Rightarrow> regex" where
  "indicatorRe w = seqs [WordB, lit w, WordB]"

definition countIndicators :: "string list \<Rightarrow> string \<Rightarrow> nat" where
  "countIndicators ws lowerContent =
     foldl (\<lambda>count w. count + length (allMatches (indicatorRe w) lowerContent)) 0 ws"

definition analyzeTone :: "string \<Rightarrow> string" where
  "analyzeTone content =
     (let lowerContent = toLowerCase content;
          formalCount = countIndicators formalIndicators lowerContent;
          casualCount = countIndicators casualIndicators lowerContent;
          technicalCount = countIndicators technicalIndicators lowerContent;
          emotionalCount = countIndicators emotionalIndicators lowerContent
      in if technicalCount > formalCount \<and> technicalCount > casualCount then ''Technical''
         else if formalCount > casualCount \<and> formalCount > emotionalCount then ''Formal''
         else if casualCount > formalCount then ''Casual''
         else if emotionalCount > 2 then ''Emotional''
         else ''Neutral'')"

subsection \<open>determineTargetAudience\<close>

definition technicalTerms :: "string list" where
  "technicalTerms = [''api'', ''framework'', ''database'', ''algorithm'', ''implementation'']"

definition determineTargetAudience :: "string \<Rightarrow> rat \<Rightarrow> string" where
  "determineTargetAudience content avg =
     (let lowerContent = toLowerCase content
      in if avg > 25 then ''Academic/Professional''
         else if avg < 15 then ''General/Casual''
         else
           (let technicalCount =
                  foldl (\<lambda>count term. count + (if includesStr lowerContent term then 1 else 0))
                    (0::nat) technicalTerms
            in if technicalCount > 2 then ''Technical/Developer'' else ''General audience''))"

subsection \<open>calculateBasicMetrics\<close>

text \<open>
  The averages are quotients of two counts. The source computes them in floating point
  and only compares them with 5, 6, 15, 20, 25 and 30; a correctly rounded quotient of
  two counts of text pieces compares with an integer exactly as the rational quotient
  does, which the model uses.
\<close>

text \<open>
  The three lists of text pieces that the scores are computed from:
  \<open>content.trim().split(/\\s+/).filter(word => word.length > 0)\<close>,
  \<open>content.split(/[.!?]+/).filter(s => s.trim().length > 0)\<close> and
  \<open>content.split(/\\n\\s*\\n/).filter(p => p.trim().length > 0)\<close>.
\<close>

definition contentWords :: "string \<Rightarrow> string list" where
  "contentWords content = filter (\<lambda>word. length word > 0) (splitRe (plus (C Space)) (trim content))"

definition contentSentences :: "string \<Rightarrow> string list" where
  "contentSentences content =
     filter (\<lambda>s. length (trim s) > 0) (splitRe (plus (C (OneOf ''.!?''))) content)"

definition paragraphRe :: regex where
  "paragraphRe = seqs [C (Lit CHR 0x0A), Star (C Space), C (Lit CHR 0x0A)]"

definition contentParagraphs :: "string \<Rightarrow> string list" where
  "contentParagraphs content = filter (\<lambda>p. length (trim p) > 0) (splitRe paragraphRe content)"

definition calculateBasicMetrics :: "string \<Rightarrow> BasicMetrics" where
  "calculateBasicMetrics content =
     (let words = contentWords content;
          sentences = contentSentences content;
          paragraphs = contentParagraphs content;
          wordCount = length words;
          sentenceCount = length sentences;
          paragraphCount = length paragraphs;
          avgWordsPerSentence =
            (if sentenceCount > 0 then of_nat wordCount / of_nat sentenceCount else (0::rat));
          avgSentencesPerParagraph =
            (if paragraphCount > 0 then of_nat sentenceCount / of_nat paragraphCount else (0::rat));
          readabilityScore0 = (10::int);
          readabilityScore1 = (if avgWordsPerSentence > 20 then readabilityScore0 - 2 else readabilityScore0);
          readabilityScore2 = (if avgWordsPerSentence > 25 then readabilityScore1 - 2 else readabilityScore1);
          readabilityScore3 = (if avgWordsPerSentence > 30 then readabilityScore2 - 2 else readabilityScore2);
          clarityScore0 = (8::int);
          clarityScore1 = (if avgSentencesPerParagraph > 5 then clarityScore0 - 1 else clarityScore0);
          clarityScore2 = (if paragraphCount = 1 \<and> sentenceCount > 10 then clarityScore1 - 1 else clarityScore1);
          toneAnalysis = analyzeTone content;
          targetAudience = determineTargetAudience content avgWordsPerSentence
      in \<lparr> bm_readabilityScore = max 1 (min 10 readabilityScore3),
           bm_clarityScore = max 1 (min 10 clarityScore2),
           bm_toneAnalysis = toneAnalysis,
           bm_targetAudience = targetAudience,
           wordCount = wordCount,
           sentenceCount = sentenceCount,
           paragraphCount = paragraphCount,
           avgWordsPerSentence = avgWordsPerSentence,
           avgSentencesPerParagraph = avgSentencesPerParagraph \<rparr>)"

subsection \<open>generateBasicSuggestions\<close>

definition wholeContent :: "string \<Rightarrow> Position" where
  "wholeContent content = \<lparr> pstart = Fin 0, pend = Fin (of_nat (length content)) \<rparr>"

text \<open>\<open>/\\b(is|are|was|were|be|been|being)\\s+\\w+ed\\b/gi\<close>\<close>

definition passiveRe :: regex where
  "passiveRe =
     seqs [WordB,
           alts [litI ''is'', litI ''are'', litI ''was'', litI ''were'', litI ''be'', litI ''been'',
                 litI ''being''],
           plus (C Space), plus (C WordC), litI ''ed'', WordB]"

text \<open>\<open>/\\b\\w+\\b/g\<close>\<close>

definition wordRe :: regex where
  "wordRe = seqs [WordB, plus (C WordC), WordB]"

text \<open>
  The word frequencies are the properties of an object, in the order of their creation.
  \<open>Object.entries\<close> lists the properties whose names are array indices first, in
  ascending order, and the others in the order of their creation.
\<close>

fun bumpFreq :: "(string \<times> nat) list \<Rightarrow> string \<Rightarrow> (string \<times> nat) list" where
  "bumpFreq [] w = [(w, 1)]"
| "bumpFreq ((k, n) # kvs) w = (if k = w then (k, n + 1) # kvs else (k, n) # bumpFreq kvs w)"

definition digitsValue :: "string \<Rightarrow> int" where
  "digitsValue w = foldl (\<lambda>n c. 10 * n + (of_char c - 48)) 0 w"

definition isArrayIndex :: "string \<Rightarrow> bool" where
  "isArrayIndex w =
     (w \<noteq> [] \<and> list_all isDigit w \<and> (length w = 1 \<or> hd w \<noteq> CHR ''0'') \<and> digitsValue w < 4294967295)"

definition objectEntries :: "(string \<times> nat) list \<Rightarrow> (string \<times> nat) list" where
  "objectEntries kvs =
     sort_key (\<lambda>kv. digitsValue (fst kv)) (filter (\<lambda>kv. isArrayIndex (fst kv)) kvs)
     @ filter (\<lambda>kv. \<not> isArrayIndex (fst kv)) kvs"

text \<open>
  The frequency object inherits from \<open>Object.prototype\<close>. For the two lower-case words
  that name a property of it, \<open>freq[word] || 0\<close> is not a number: the entry of
  \<open>constructor\<close> becomes a string, which \<open>count > 5\<close> rejects, and no property
  \<open>__proto__\<close> is created. Neither is ever reported.
\<close>

definition inheritedNames :: "string list" where
  "inheritedNames = [''constructor'', ''__proto__'']"

definition overusedWords :: "string \<Rightarrow> string list" where
  "overusedWords content =
     (let words = map matchText (allMatches wordRe (toLowerCase content));
          wordFreq = foldl (\<lambda>freq word. if length word > 4 then bumpFreq freq word else freq) [] words
      in map fst (filter (\<lambda>kv. snd kv > 5 \<and> fst kv \<notin> set inheritedNames) (objectEntries wordFreq)))"

definition generateBasicSuggestions :: "string \<Rightarrow> BasicMetrics \<Rightarrow> Suggestion list" where
  "generateBasicSuggestions content m =
     (if avgWordsPerSentence m > 25 then
        [\<lparr> sg_type = JStr ''clarity'', sg_severity = JStr ''medium'',
           sg_description = JStr ''Consider breaking down long sentences for better readability.'',
           sg_originalText = JStr ''Long sentences detected'',
           sg_suggestedText = JStr ''Try splitting sentences that exceed 25 words.'',
           sg_position = wholeContent content \<rparr>]
      else [])
     @ (if avgSentencesPerParagraph m > 6 then
        [\<lparr> sg_type = JStr ''structure'', sg_severity = JStr ''low'',
           sg_description = JStr ''Consider breaking long paragraphs into smaller chunks.'',
           sg_originalText = JStr ''Long paragraphs detected'',
           sg_suggestedText = JStr ''Aim for 3-5 sentences per paragraph for better readability.'',
           sg_position = wholeContent content \<rparr>]
      else [])
     @ (if length (allMatches passiveRe content) > 3 then
        [\<lparr> sg_type = JStr ''clarity'', sg_severity = JStr ''low'',
           sg_description = JStr ''Consider using active voice for more engaging writing.'',
           sg_originalText = JStr ''Passive voice detected'',
           sg_suggestedText = JStr ''Try converting passive sentences to active voice.'',
           sg_position = wholeContent content \<rparr>]
      else [])
     @ (let overused = overusedWords content
        in if length overused > 0 then
          [\<lparr> sg_type = JStr ''clarity'', sg_severity = JStr ''low'',
             sg_description = JStr (''The words '' @ [dq] @ joinComma (take 3 overused) @ [dq]
                                     @ '' appear frequently. Consider using synonyms.''),
             sg_originalText = JStr (joinComma overused),
             sg_suggestedText = JStr ''Use varied vocabulary to maintain reader interest.'',
             sg_position = wholeContent content \<rparr>]
        else [])"

subsection \<open>detectAmbiguousPhrases\<close>

text \<open>
  The four patterns, with their reasons and suggestions:
  \<open>/\\b(a lot|lots)\\b/gi\<close>, \<open>/\\b(stuff|things)\\b/gi\<close>,
  \<open>/\\b(very|really|quite)\\s+(\\w+)/gi\<close>, \<open>/\\b(maybe|perhaps|possibly)\\b/gi\<close>.
\<close>

definition ambiguousPatterns :: "(regex \<times> string \<times> string list) list" where
  "ambiguousPatterns =
     [(seqs [WordB, alts [litI ''a lot'', litI ''lots''], WordB],
       ''Vague quantity. Consider being more specific.'',
       [''many'', ''numerous'', ''several'', ''a specific number'']),
      (seqs [WordB, alts [litI ''stuff'', litI ''things''], WordB],
       ''Vague reference. Be more specific about what you mean.'',
       [''items'', ''elements'', ''components'', ''specific nouns'']),
      (seqs [WordB, alts [litI ''very'', litI ''really'', litI ''quite''], plus (C Space), plus (C WordC)],
       ''Weak intensifiers. Consider stronger, more specific adjectives.'',
       [''use stronger adjectives'', ''be more specific'', ''remove unnecessary intensifiers'']),
      (seqs [WordB, alts [litI ''maybe'', litI ''perhaps'', litI ''possibly''], WordB],
       ''Uncertain language may weaken your message.'',
       [''be more definitive'', ''provide evidence'', ''state clearly''])]"

definition phraseOfMatch :: "string \<Rightarrow> string list \<Rightarrow> mstate \<times> mstate \<Rightarrow> AmbiguousPhrase" where
  "phraseOfMatch reason sugg m =
     \<lparr> ap_text = JStr (matchText m),
       ap_position = \<lparr> pstart = Fin (of_nat (matchIndex m)),
                       pend = Fin (of_nat (matchIndex m + length (matchText m))) \<rparr>,
       ap_reason = JStr reason,
       ap_suggestions = map JStr sugg \<rparr>"

definition detectAmbiguousPhrases :: "string \<Rightarrow> AmbiguousPhrase list" where
  "detectAmbiguousPhrases content =
     concat (map (\<lambda>(pattern, reason, sugg). map (phraseOfMatch reason sugg) (allMatches pattern content))
               ambiguousPatterns)"

subsection \<open>createBasicAnalysis\<close>

text \<open>
  \<open>now\<close> is the clock (\<open>Date.now()\<close>, \<open>new Date()\<close>) and \<open>rnd\<close> the nine characters
  that \<open>Math.random().toString(36).substr(2, 9)\<close> gives; \<open>pid\<close> is the optional
  \<open>postId\<close>.
\<close>

definition orEmpty :: "string option \<Rightarrow> string" where
  "orEmpty pid = (case pid of None \<Rightarrow> [] | Some p \<Rightarrow> p)"

definition createBasicAnalysis :: "string \<Rightarrow> string option \<Rightarrow> int \<Rightarrow> string \<Rightarrow> AnalysisResult" where
  "createBasicAnalysis content pid now rnd =
     (let m = calculateBasicMetrics content;
          sgs = generateBasicSuggestions content m;
          aps = detectAmbiguousPhrases content
      in \<lparr> ar_id = ''analysis-'' @ decimal now @ ''-'' @ rnd,
           postId = orEmpty pid,
           timestamp = now,
           metrics =
             \<lparr> readabilityScore = Fin (of_int (bm_readabilityScore m)),
               clarityScore = Fin (of_int (bm_clarityScore m)),
               toneAnalysis = JStr (bm_toneAnalysis m),
               targetAudience = JStr (bm_targetAudience m) \<rparr>,
           suggestions = sgs,
           ambiguousPhrases = aps \<rparr>)"

subsection \<open>Notions and examples for the properties of the heuristic analyzer\<close>

text \<open>The four keyword counts of a content, as \<open>analyzeTone\<close> computes them.\<close>

definition formalCount :: "string \<Rightarrow> nat" where
  "formalCount content = countIndicators formalIndicators (toLowerCase content)"

definition casualCount :: "string \<Rightarrow> nat" where
  "casualCount content = countIndicators casualIndicators (toLowerCase content)"

definition technicalCount :: "string \<Rightarrow> nat" where
  "technicalCount content = countIndicators technicalIndicators (toLowerCase content)"

definition emotionalCount :: "string \<Rightarrow> nat" where
  "emotionalCount content = countIndicators emotionalIndicators (toLowerCase content)"

text \<open>How many of the thresholds a value strictly exceeds.\<close>

definition exceeded :: "rat \<Rightarrow> rat list \<Rightarrow> nat" where
  "exceeded x ts = length (filter (\<lambda>t. x > t) ts)"

text \<open>
  The counts of words, sentences and paragraphs, read off the text in one pass, without
  regular expressions. \<open>pieces sep cur r\<close> are the pieces of a text between maximal runs
  of separator characters (\<open>cur\<close> is the current piece, reversed). A word starts at a
  character that is not whitespace and is the first of the text or follows whitespace.
  A sentence starts at the first character, other than whitespace and the terminators
  \<open>.\<close>, \<open>!\<close> and \<open>?\<close>, of the text or after a terminator. A paragraph starts at a character
  that is not whitespace and is the first such character of the text or follows
  whitespace with at least two newlines in it. \<open>afterBlank r\<close> is the text after the last
  newline of the whitespace that \<open>r\<close> begins with.
\<close>

function pieces :: "(char \<Rightarrow> bool) \<Rightarrow> string \<Rightarrow> string \<Rightarrow> string list" where
  "pieces sep cur [] = [rev cur]"
| "pieces sep cur (c # cs) =
     (if sep c then rev cur # pieces sep [] (dropWhile sep cs) else pieces sep (c # cur) cs)"
  by pat_completeness auto
termination
  by (relation "measure (\<lambda>(sep, cur, r). length r)")
     (auto simp: length_dropWhile_le less_Suc_eq_le)

fun wordStarts :: "bool \<Rightarrow> string \<Rightarrow> nat" where
  "wordStarts inWord [] = 0"
| "wordStarts inWord (c # cs) =
     (if isSpace c then wordStarts False cs
      else (if inWord then 0 else 1) + wordStarts True cs)"

definition isTerminator :: "char \<Rightarrow> bool" where
  "isTerminator c = (c \<in> set ''.!?'')"

fun sentenceStarts :: "bool \<Rightarrow> string \<Rightarrow> nat" where
  "sentenceStarts inSentence [] = 0"
| "sentenceStarts inSentence (c # cs) =
     (if isTerminator c then sentenceStarts False cs
      else if isSpace c then sentenceStarts inSentence cs
      else (if inSentence then 0 else 1) + sentenceStarts True cs)"

fun afterBlank :: "string \<Rightarrow> string option" where
  "afterBlank [] = None"
| "afterBlank (c # cs) =
     (if isSpace c
      then (case afterBlank cs of Some t \<Rightarrow> Some t
            | None \<Rightarrow> if c = CHR 0x0A then Some cs else None)
      else None)"

fun paragraphStarts :: "bool \<Rightarrow> nat \<Rightarrow> string \<Rightarrow> nat" where
  "paragraphStarts inParagraph newlines [] = 0"
| "paragraphStarts inParagraph newlines (c # cs) =
     (if c = CHR 0x0A then paragraphStarts inParagraph (Suc newlines) cs
      else if isSpace c then paragraphStarts inParagraph newlines cs
      else (if inParagraph \<and> newlines < 2 then 0 else 1) + paragraphStarts True 0 cs)"

text \<open>
  A content whose emotional keywords (three times \<open>love\<close>) outnumber its one technical
  keyword (\<open>implement\<close>), and one with two formal keywords and a casual one.
\<close>

definition lovingText :: string where
  "lovingText = ''I implement it: love, love, love.''"

definition formalText :: string where
  "formalText = ''However, just wait; therefore wait.''"

text \<open>
  One sentence of 31 words and one of 22 words; eleven sentences of one word in one
  paragraph; twelve sentences in a first paragraph and one in a second.
\<close>

definition sentenceOf31 :: string where
  "sentenceOf31 = ''a a a a a a a a a a a a a a a a a a a a a a a a a a a a a a a.''"

definition sentenceOf22 :: string where
  "sentenceOf22 = ''a a a a a a a a a a a a a a a a a a a a a a.''"

definition elevenSentences :: string where
  "elevenSentences = ''A. B. C. D. E. F. G. H. I. J. K.''"

definition twoParagraphs :: string where
  "twoParagraphs = ''A. B. C. D. E. F. G. H. I. J. K. L.'' @ [CHR 0x0A, CHR '' '', CHR 0x0A] @ ''M.''"

section \<open>The AI service, as the orchestrator calls it\<close>

text \<open>
  \<open>AIService.analyzeContent\<close> of \<open>services/ai.ts\<close>. \<open>configured\<close> is \<open>isConfigured()\<close>.
  \<open>provider\<close> is everything that depends on the network and on the provider's answer:
  the throttled request, the reading of the answer's text and its parsing; it fails with a
  transport error (the request threw) or a malformed-response error (no text in the
  answer), and the \<open>catch\<close> passes its error on.
\<close>

record AnalysisResponse =
  success :: bool
  data :: "AnalysisResult option"

definition AIService_analyzeContent ::
  "bool \<Rightarrow> (string \<Rightarrow> error + AnalysisResult) \<Rightarrow> string \<Rightarrow> error + AnalysisResponse" where
  "AIService_analyzeContent configured provider content =
     (if \<not> configured then Inl ConfigurationError
      else if trim content = [] then Inl ValidationError
      else (case provider content of
              Inl e \<Rightarrow> Inl e
            | Inr analysisResult \<Rightarrow> Inr \<lparr> success = True, data = Some analysisResult \<rparr>))"

section \<open>AnalysisCache and AnalysisOrchestrator\<close>

text \<open>
  \<open>generateCacheKey\<close>. The hash is a 32-bit integer: \<open>hash << 5\<close> and \<open>hash & hash\<close>
  wrap around, written out as \<open>toInt32\<close>; the subtraction and the addition between them
  are exact.
\<close>

definition toInt32 :: "int \<Rightarrow> int" where
  "toInt32 x = (x + 2147483648) mod 4294967296 - 2147483648"

definition hashStep :: "int \<Rightarrow> char \<Rightarrow> int" where
  "hashStep hash c = toInt32 ((toInt32 (hash * 32) - hash) + of_char c)"

definition generateCacheKey :: "string \<Rightarrow> string" where
  "generateCacheKey content =
     ''analysis_'' @ decimal \<bar>foldl hashStep 0 content\<bar> @ ''_'' @ decimal (int (length content))"

definition cacheTimeout :: int where
  "cacheTimeout = 5 * 60 * 1000"

definition isCacheValid :: "int \<Rightarrow> AnalysisResult \<Rightarrow> bool" where
  "isCacheValid now analysis = (now - timestamp analysis < cacheTimeout)"

text \<open>\<open>cached && this.isCacheValid(cached)\<close>, for \<open>cached = this.cache.get(cacheKey)\<close>.\<close>

definition validEntry :: "int \<Rightarrow> (string \<rightharpoonup> AnalysisResult) \<Rightarrow> string \<Rightarrow> AnalysisResult option" where
  "validEntry now cache cacheKey =
     (case cache cacheKey of
        None \<Rightarrow> None
      | Some cached \<Rightarrow> if isCacheValid now cached then Some cached else None)"

text \<open>
  \<open>ContentAnalyzer.analyzeContent\<close>. The state is the cache, returned with the result.
  \<open>ai\<close> is \<open>aiService.analyzeContent\<close>; \<open>now\<close> is the clock at the cache check,
  \<open>later\<close> the clock when the provider call has returned, \<open>rnd\<close> the random part of a
  fallback id. The \<open>try\<close> block throws \<open>AI analysis failed\<close> on a response without
  success or data; its \<open>catch\<close> catches that and every error of \<open>ai\<close>.
\<close>

definition analyzeContent ::
  "(string \<Rightarrow> error + AnalysisResponse) \<Rightarrow> int \<Rightarrow> int \<Rightarrow> string
   \<Rightarrow> (string \<rightharpoonup> AnalysisResult) \<Rightarrow> string \<Rightarrow> string option
   \<Rightarrow> (error + AnalysisResult) \<times> (string \<rightharpoonup> AnalysisResult)" where
  "analyzeContent ai now later rnd cache content pid =
     (if trim content = [] then (Inl ValidationError, cache)
      else
        (let cacheKey = generateCacheKey content
         in case validEntry now cache cacheKey of
              Some cached \<Rightarrow> (Inr (cached\<lparr> postId := orEmpty pid \<rparr>), cache)
            | None \<Rightarrow>
                (case ai content of
                   Inl e \<Rightarrow> (Inr (createBasicAnalysis content pid later rnd), cache)
                 | Inr response \<Rightarrow>
                     (case data response of
                        None \<Rightarrow> (Inr (createBasicAnalysis content pid later rnd), cache)
                      | Some d \<Rightarrow>
                          if \<not> success response
                          then (Inr (createBasicAnalysis content pid later rnd), cache)
                          else
                            (let analysisResult = d\<lparr> postId := orEmpty pid, timestamp := later \<rparr>
                             in (Inr analysisResult, cache(cacheKey \<mapsto> analysisResult)))))))"

text \<open>
  \<open>ContentAnalyzer.analyzePost\<close>: the same for a post, with the post's id. The updated
  post with the longer analysis history is a local value that the source drops.
\<close>

datatype postStatus = Draft | Completed | Archived

record Post =
  post_id :: string
  post_title :: string
  post_content :: string
  post_excerpt :: string
  post_tags :: "string list"
  post_createdAt :: int
  post_updatedAt :: int
  post_wordCount :: nat
  post_status :: postStatus
  post_analysisHistory :: "AnalysisResult list"

definition analyzePost ::
  "(string \<Rightarrow> error + AnalysisResponse) \<Rightarrow> int \<Rightarrow> int \<Rightarrow> string
   \<Rightarrow> (string \<rightharpoonup> AnalysisResult) \<Rightarrow> Post
   \<Rightarrow> (error + AnalysisResult) \<times> (string \<rightharpoonup> AnalysisResult)" where
  "analyzePost ai now later rnd cache post =
     (if trim (post_content post) = [] then (Inl ValidationError, cache)
      else
        (let cacheKey = generateCacheKey (post_content post)
         in case validEntry now cache cacheKey of
              Some cached \<Rightarrow> (Inr (cached\<lparr> postId := post_id post \<rparr>), cache)
            | None \<Rightarrow>
                (case ai (post_content post) of
                   Inl e \<Rightarrow>
                     (Inr (createBasicAnalysis (post_content post) (Some (post_id post)) later rnd), cache)
                 | Inr response \<Rightarrow>
                     (case data response of
                        None \<Rightarrow>
                          (Inr (createBasicAnalysis (post_content post) (Some (post_id post)) later rnd),
                           cache)
                      | Some d \<Rightarrow>
                          if \<not> success response
                          then (Inr (createBasicAnalysis (post_content post) (Some (post_id post)) later rnd),
                                cache)
                          else
                            (let analysisResult = d\<lparr> postId := post_id post, timestamp := later \<rparr>
                             in (Inr analysisResult, cache(cacheKey \<mapsto> analysisResult)))))))"

text \<open>\<open>clearExpiredCache\<close>, the sweep that runs every minute.\<close>

definition clearExpiredCache :: "int \<Rightarrow> (string \<rightharpoonup> AnalysisResult) \<Rightarrow> (string \<rightharpoonup> AnalysisResult)" where
  "clearExpiredCache now cache =
     (\<lambda>key. case cache key of
              None \<Rightarrow> None
            | Some analysis \<Rightarrow> if now - timestamp analysis > cacheTimeout then None else Some analysis)"

subsection \<open>Examples for the properties of the orchestrator\<close>

text \<open>A provider that is down, the service configured with it, and a service that is not configured.\<close>

definition providerDown :: "string \<Rightarrow> error + AnalysisResult" where
  "providerDown content = Inl TransportError"

definition serviceDown :: "string \<Rightarrow> error + AnalysisResponse" where
  "serviceDown content = AIService_analyzeContent True providerDown content"

definition serviceNotConfigured :: "string \<Rightarrow> error + AnalysisResponse" where
  "serviceNotConfigured content = AIService_analyzeContent False providerDown content"

definition emptyCache :: "string \<rightharpoonup> AnalysisResult" where
  "emptyCache = Map.empty"

definition shortText :: string where
  "shortText = ''Maybe ok.''"

text \<open>A cache entry for \<open>shortText\<close>, written at time 1000 for the post \<open>post-1\<close>.\<close>

definition cachedAnalysis :: AnalysisResult where
  "cachedAnalysis =
     \<lparr> ar_id = ''analysis-1000-k3j9x2m1q'',
       postId = ''post-1'',
       timestamp = 1000,
       metrics = \<lparr> readabilityScore = Fin 7, clarityScore = Fin 6,
                   toneAnalysis = JStr ''Neutral'', targetAudience = JStr ''General audience'' \<rparr>,
       suggestions = [],
       ambiguousPhrases = [] \<rparr>"

definition warmCache :: "string \<rightharpoonup> AnalysisResult" where
  "warmCache = Map.empty(generateCacheKey shortText \<mapsto> cachedAnalysis)"

definition examplePost :: Post where
  "examplePost =
     \<lparr> post_id = ''post-7'', post_title = ''Note'', post_content = shortText,
       post_excerpt = ''Maybe'', post_tags = [], post_createdAt = 500, post_updatedAt = 900,
       post_wordCount = 2, post_status = Draft, post_analysisHistory = [] \<rparr>"

section \<open>RequestThrottler\<close>

text \<open>
  \<open>rateLimitedRequest\<close> and \<open>processQueue\<close> of \<open>services/ai.ts\<close>, on a single-threaded
  event loop with an explicit clock. A submitted request is described by what the loop
  can observe of it: how long it takes to settle, whether it rejects, and by how much the
  timer that \<open>processQueue\<close> may set before it fires late. Every request settles, the
  clock does not run backwards and a timer does not fire early.

  The state is the three fields of the service. The submissions still to come are a list
  of requests with their times of submission, in the order of submission; a submission
  pushes its request to the end of the queue and calls \<open>processQueue\<close>, which returns at
  once while the loop is running.
\<close>

record Request =
  req_id :: nat
  req_duration :: nat
  req_rejects :: bool
  req_timerLate :: nat

record Throttler =
  rateLimitQueue :: "Request list"
  isProcessingQueue :: bool
  lastRequestTime :: int

datatype outcome = Resolved | Rejected

record Dispatch =
  d_id :: nat
  d_start :: int
  d_outcome :: outcome

definition requestInterval :: int where
  "requestInterval = 1000"

text \<open>
  The closure that \<open>rateLimitedRequest\<close> pushes: it awaits the request, resolves or
  rejects the caller's promise, and never throws itself.
\<close>

definition settle :: "Request \<Rightarrow> outcome" where
  "settle request = (if req_rejects request then Rejected else Resolved)"

text \<open>The submissions up to a time, which have been pushed by then, and the later ones.\<close>

definition arrive :: "int \<Rightarrow> (int \<times> Request) list \<Rightarrow> Request list \<times> (int \<times> Request) list" where
  "arrive t pending =
     (map snd (takeWhile (\<lambda>s. fst s \<le> t) pending), dropWhile (\<lambda>s. fst s \<le> t) pending)"

lemma arrive_lengths:
  "arrive t pending = (arrived, rest) \<Longrightarrow> length arrived + length rest = length pending"
proof -
  assume "arrive t pending = (arrived, rest)"
  then have a: "arrived = map snd (takeWhile (\<lambda>s. fst s \<le> t) pending)"
    and r: "rest = dropWhile (\<lambda>s. fst s \<le> t) pending"
    by (simp_all add: arrive_def)
  have "length (takeWhile (\<lambda>s. fst s \<le> t) pending) + length (dropWhile (\<lambda>s. fst s \<le> t) pending)
      = length pending"
    by (metis length_append takeWhile_dropWhile_id)
  with a r show ?thesis by simp
qed

text \<open>
  The loop of \<open>processQueue\<close>, from an evaluation of its condition at time \<open>now\<close>.
  With a request in the queue: the loop waits until a full interval has passed since
  \<open>lastRequestTime\<close>, shifts the request and dispatches it at \<open>start\<close>; when it has settled,
  at \<open>finish\<close>, \<open>lastRequestTime\<close> becomes \<open>finish\<close>; the submissions made in the meantime
  are in the queue by then. With an empty queue the loop ends and clears
  \<open>isProcessingQueue\<close>; the next submission starts it again at its own time. The result is
  the final state and the dispatches in the order in which they were made.
\<close>

function processQueue ::
  "int \<Rightarrow> Throttler \<Rightarrow> (int \<times> Request) list \<Rightarrow> Throttler \<times> Dispatch list" where
  "processQueue now st pending =
     (case rateLimitQueue st of
        [] \<Rightarrow>
          (case pending of
             [] \<Rightarrow> (st\<lparr> isProcessingQueue := False \<rparr>, [])
           | s # rest \<Rightarrow>
               processQueue (fst s) (st\<lparr> rateLimitQueue := [snd s], isProcessingQueue := True \<rparr>) rest)
      | request # queue \<Rightarrow>
          (let timeSinceLastRequest = now - lastRequestTime st;
               start = (if timeSinceLastRequest < requestInterval
                        then now + (requestInterval - timeSinceLastRequest) + int (req_timerLate request)
                        else now);
               finish = start + int (req_duration request);
               arrived = fst (arrive finish pending);
               rest = snd (arrive finish pending);
               (st', ds) = processQueue finish
                              (st\<lparr> rateLimitQueue := queue @ arrived, lastRequestTime := finish \<rparr>) rest
           in (st', \<lparr> d_id = req_id request, d_start = start, d_outcome = settle request \<rparr> # ds)))"
  by pat_completeness auto
termination
proof (relation "measure (\<lambda>(now, st, pending).
          2 * (length (rateLimitQueue st) + length pending) + (if rateLimitQueue st = [] then 1 else 0))")
  show "wf (measure (\<lambda>(now, st, pending).
          2 * (length (rateLimitQueue st) + length pending) + (if rateLimitQueue st = [] then 1 else 0)))"
    by simp
next
  fix now :: int and st :: Throttler and pending :: "(int \<times> Request) list" and s rest
  assume "rateLimitQueue st = []" "pending = s # rest"
  then show "((fst s, st\<lparr> rateLimitQueue := [snd s], isProcessingQueue := True \<rparr>, rest), now, st, pending)
      \<in> measure (\<lambda>(now, st, pending).
          2 * (length (rateLimitQueue st) + length pending) + (if rateLimitQueue st = [] then 1 else 0))"
    by simp
next
  fix now :: int and st :: Throttler and pending :: "(int \<times> Request) list"
    and request queue x xa xb xc xd
  assume q: "rateLimitQueue st = request # queue"
    and "xc = fst (arrive xb pending)" "xd = snd (arrive xb pending)"
  then have "arrive xb pending = (xc, xd)" by simp
  from arrive_lengths [OF this] q
  show "((xb, st\<lparr> rateLimitQueue := queue @ xc, lastRequestTime := xb \<rparr>, xd), now, st, pending)
      \<in> measure (\<lambda>(now, st, pending).
          2 * (length (rateLimitQueue st) + length pending) + (if rateLimitQueue st = [] then 1 else 0))"
    by simp
qed

declare processQueue.simps [simp del]

text \<open>The service as constructed, and a run of it over the submissions of a session.\<close>

definition newThrottler :: Throttler where
  "newThrottler = \<lparr> rateLimitQueue = [], isProcessingQueue = False, lastRequestTime = 0 \<rparr>"

definition runThrottler :: "(int \<times> Request) list \<Rightarrow> Throttler \<times> Dispatch list" where
  "runThrottler submissions = processQueue 0 newThrottler submissions"

text \<open>Consecutive dispatches are at least an interval apart.\<close>

fun spaced :: "int list \<Rightarrow> bool" where
  "spaced [] = True"
| "spaced [t] = True"
| "spaced (t # u # ts) = (t + requestInterval \<le> u \<and> spaced (u # ts))"

text \<open>
  Three requests submitted at the times 5000, 5000 and 5100; the second one rejects, the
  first takes 300 ms.
\<close>

definition threeSubmissions :: "(int \<times> Request) list" where
  "threeSubmissions =
     [(5000, \<lparr> req_id = 1, req_duration = 300, req_rejects = False, req_timerLate = 0 \<rparr>),
      (5000, \<lparr> req_id = 2, req_duration = 50, req_rejects = True, req_timerLate = 4 \<rparr>),
      (5100, \<lparr> req_id = 3, req_duration = 120, req_rejects = False, req_timerLate = 0 \<rparr>)]"

chapter \<open>Properties\<close>

section \<open>The parser: positions, scores, suggestion types\<close>

lemma decimal_1000: "decimal 1000 = ''1000''"
  by code_simp

lemmas build_eval = buildAnalysisResult_def optProp_def orElse_def mapSuggestion_def mapPhrase_def
  clampPosition_def clampScore_def ToNumber_def Math_max_def Math_min_def asArray_def decimal_1000

lemma traverse_Some:
  "traverse f xs = Some ys \<Longrightarrow> length ys = length xs \<and> (\<forall>i<length xs. f (xs ! i) = Some (ys ! i))"
proof (induction xs arbitrary: ys)
  case Nil
  then show ?case by simp
next
  case (Cons x xs)
  then obtain y ys' where y: "f x = Some y" and t: "traverse f xs = Some ys'" and e: "ys = y # ys'"
    by (auto split: option.splits)
  from Cons.IH [OF t] y e show ?case
    by (auto simp: nth_Cons split: nat.splits)
qed

lemma traverse_None: "(traverse f xs = None) = (\<not> list_all (\<lambda>x. f x \<noteq> None) xs)"
  by (induction xs) (auto split: option.splits)

lemma buildAnalysisResult_Some:
  assumes "buildAnalysisResult coerce d c pid now rnd = Some r"
  shows "\<exists>m ss sgs ps aps.
      getProp d ''metrics'' = Some m \<and> truthy m \<and>
      optProp d ''suggestions'' = JArr ss \<and>
      traverse (mapSuggestion coerce (length c)) ss = Some sgs \<and>
      orElse (optProp d ''ambiguousPhrases'') (JArr []) = JArr ps \<and>
      traverse (mapPhrase coerce (length c)) ps = Some aps \<and>
      suggestions r = sgs \<and> ambiguousPhrases r = aps \<and>
      clampScore coerce (optProp m ''readabilityScore'') = Some (readabilityScore (metrics r)) \<and>
      clampScore coerce (optProp m ''clarityScore'') = Some (clarityScore (metrics r))"
proof -
  from assms obtain m ss sgs ps aps rs cs where
    m: "getProp d ''metrics'' = Some m"
    and ss: "(if truthy m then asArray (optProp d ''suggestions'') else None) = Some ss"
    and sgs: "traverse (mapSuggestion coerce (length c)) ss = Some sgs"
    and ps: "asArray (orElse (optProp d ''ambiguousPhrases'') (JArr [])) = Some ps"
    and aps: "traverse (mapPhrase coerce (length c)) ps = Some aps"
    and rs: "clampScore coerce (optProp m ''readabilityScore'') = Some rs"
    and cs: "clampScore coerce (optProp m ''clarityScore'') = Some cs"
    and r: "r = \<lparr> ar_id = ''analysis-'' @ decimal now @ ''-'' @ rnd,
              postId = pid,
              timestamp = now,
              metrics =
                \<lparr> readabilityScore = rs,
                  clarityScore = cs,
                  toneAnalysis = orElse (optProp m ''toneAnalysis'') (JStr ''Neutral''),
                  targetAudience = orElse (optProp m ''targetAudience'') (JStr ''General audience'') \<rparr>,
              suggestions = sgs,
              ambiguousPhrases = aps \<rparr>"
    unfolding buildAnalysisResult_def bind_eq_Some_conv by blast
  from ss have tm: "truthy m" and ss': "asArray (optProp d ''suggestions'') = Some ss"
    by (simp_all split: if_splits)
  from ss' have ss'': "optProp d ''suggestions'' = JArr ss"
    by (cases "optProp d ''suggestions''") (simp_all add: asArray_def)
  from ps have ps': "orElse (optProp d ''ambiguousPhrases'') (JArr []) = JArr ps"
    by (cases "orElse (optProp d ''ambiguousPhrases'') (JArr [])") (simp_all add: asArray_def)
  have "suggestions r = sgs" "ambiguousPhrases r = aps"
    "readabilityScore (metrics r) = rs"
    "clarityScore (metrics r) = cs"
    unfolding r by simp_all
  with m tm ss'' sgs ps' aps rs cs show ?thesis by blast
qed

text \<open>
  Every response that \<open>parseAnalysisResponse\<close> accepts is built from parsed data by
  \<open>buildAnalysisResult\<close>, so what holds for every result of the latter holds for every
  accepted response.
\<close>

lemma parseAnalysisResponse_accepts:
  assumes "parseAnalysisResponse JSON_parse coerce response c pid now rnd = Inr r"
  shows "\<exists>d. parseResponseData JSON_parse response = Some d
           \<and> buildAnalysisResult coerce d c pid now rnd = Some r"
  using assms by (auto simp: parseAnalysisResponse_def split: option.splits)

subsection \<open>Accepted data\<close>

text \<open>
  Which data the parser accepts. A conversion to a number throws only on an object or an
  array, and both are truthy, so the default that \<open>||\<close> puts in the place of a falsy value
  never matters for it.
\<close>

lemma toStringThrows_truthy: "toStringThrows v \<Longrightarrow> truthy v"
  by (cases v) simp_all

lemma ToNumber_orElse_None:
  "(ToNumber coerce (orElse v (JNum x)) = None) = (\<not> converts v)"
  using toStringThrows_truthy [of v] by (auto simp: ToNumber_def orElse_def converts_def)

lemma clampScore_None: "(clampScore coerce v = None) = (\<not> converts v)"
  by (simp add: clampScore_def bind_eq_None_conv ToNumber_orElse_None)

lemma clampPosition_None: "(clampPosition coerce len p = None) = (\<not> positionConverts p)"
  by (auto simp: clampPosition_def bind_eq_None_conv ToNumber_orElse_None positionConverts_def)

lemma getProp_optProp:
  "s \<noteq> JNull \<Longrightarrow> s \<noteq> JUndefined \<Longrightarrow> getProp s k = Some (optProp s k)"
  by (cases s) (simp_all add: optProp_def split: option.splits)

lemma getProp_None: "(getProp s k = None) = (s = JNull \<or> s = JUndefined)"
  by (cases s) (simp_all split: option.splits)

lemma mapSuggestion_None: "(mapSuggestion coerce len s = None) = (\<not> itemConverts s)"
proof (cases "s = JNull \<or> s = JUndefined")
  case True
  then show ?thesis by (auto simp: mapSuggestion_def itemConverts_def)
next
  case False
  then have "getProp s ''position'' = Some (optProp s ''position'')"
    by (simp add: getProp_optProp)
  with False show ?thesis
    by (simp add: mapSuggestion_def itemConverts_def bind_eq_None_conv clampPosition_None)
qed

lemma mapPhrase_None: "(mapPhrase coerce len s = None) = (\<not> itemConverts s)"
proof (cases "s = JNull \<or> s = JUndefined")
  case True
  then show ?thesis by (auto simp: mapPhrase_def itemConverts_def)
next
  case False
  then have "getProp s ''position'' = Some (optProp s ''position'')"
    by (simp add: getProp_optProp)
  with False show ?thesis
    by (simp add: mapPhrase_def itemConverts_def bind_eq_None_conv clampPosition_None)
qed

lemma asArray_None: "(asArray v = None) = (\<forall>xs. v \<noteq> JArr xs)"
  by (cases v) (simp_all add: asArray_def)

lemma buildAnalysisResult_None:
  "(buildAnalysisResult coerce d c pid now rnd = None) = (\<not> acceptsData d)"
proof (cases "getProp d ''metrics''")
  case None
  then show ?thesis by (simp add: buildAnalysisResult_def acceptsData_def)
next
  case (Some m)
  show ?thesis
  proof (cases "truthy m")
    case False
    with Some show ?thesis by (simp add: buildAnalysisResult_def acceptsData_def)
  next
    case True
    show ?thesis
    proof (cases "asArray (optProp d ''suggestions'')")
      case None
      with Some True show ?thesis
        by (cases "optProp d ''suggestions''") (simp_all add: buildAnalysisResult_def acceptsData_def asArray_def)
    next
      case ss: (Some ss)
      then have s: "optProp d ''suggestions'' = JArr ss"
        by (cases "optProp d ''suggestions''") (simp_all add: asArray_def)
      show ?thesis
      proof (cases "asArray (orElse (optProp d ''ambiguousPhrases'') (JArr []))")
        case None
        with Some True ss s show ?thesis
          by (cases "orElse (optProp d ''ambiguousPhrases'') (JArr [])")
             (simp_all add: buildAnalysisResult_def acceptsData_def asArray_def bind_eq_None_conv)
      next
        case ps: (Some ps)
        then have p: "orElse (optProp d ''ambiguousPhrases'') (JArr []) = JArr ps"
          by (cases "orElse (optProp d ''ambiguousPhrases'') (JArr [])") (simp_all add: asArray_def)
        from Some True ss s ps p show ?thesis
          by (auto simp: buildAnalysisResult_def acceptsData_def bind_eq_None_conv
                traverse_None clampScore_None mapSuggestion_None mapPhrase_None list_all_iff)
      qed
    qed
  qed
qed

text \<open>
  A response is rejected when a score, or a bound of a position, is an object with a
  property \<open>toString\<close> or an array that holds one.
\<close>

lemma parser_rejects_unconvertible:
  "buildAnalysisResult coerceNaN throwingScoreData ''Some text.'' ''post-1'' 1000 ''k3j9x2m1q'' = None
   \<and> buildAnalysisResult coerceNaN throwingPositionData ''Some text.'' ''post-1'' 1000 ''k3j9x2m1q'' = None"
  by (simp add: throwingScoreData_def throwingPositionData_def build_eval)

subsection \<open>Positions\<close>

text \<open>
  What the parser's clamping does guarantee: a start that the provider gives as a number
  is not negative afterwards, and an end that it gives as a number is not beyond the
  content. The start is not bounded from above, the end not from below, and the two are
  not compared.
\<close>

lemma clampPosition_start_lower:
  assumes "clampPosition coerce len p = Some q" and "optProp p ''start'' = JNum n" and "n \<noteq> NaN"
  shows "num_le (Fin 0) (pstart q)"
  using assms
  by (cases n) (auto simp: clampPosition_def orElse_def ToNumber_def Math_max_def bind_eq_Some_conv
                     split: if_splits)

lemma clampPosition_end_upper:
  assumes "clampPosition coerce len p = Some q" and "optProp p ''end'' = JNum n" and "n \<noteq> NaN"
  shows "num_le (pend q) (Fin (of_nat len))"
  using assms
  by (cases n) (auto simp: clampPosition_def orElse_def ToNumber_def Math_min_def bind_eq_Some_conv
                     split: if_splits)

text \<open>
  C1. Claim: every suggestion position and every ambiguous-phrase position of every
  AnalysisResult satisfies \<open>0 \<le> start \<le> end \<le> len(content)\<close>. The parser's
  "position validation" clamps the start from below and the end from above only. For a
  content of ten code units, a provider suggestion at \<open>{start: 100, end: 5}\<close> is
  returned with start 100 and end 5, and a phrase at \<open>{start: 2, end: -4}\<close> with end -4:
  neither position is valid.
\<close>

theorem parser_positions_escape_content:
  "buildAnalysisResult coerceNaN escapingData ''0123456789'' ''post-1'' 1000 ''k3j9x2m1q''
     = Some escapingResult
   \<and> map sg_position (suggestions escapingResult) = [\<lparr> pstart = Fin 100, pend = Fin 5 \<rparr>]
   \<and> map ap_position (ambiguousPhrases escapingResult) = [\<lparr> pstart = Fin 2, pend = Fin (- 4) \<rparr>]
   \<and> \<not> validPosition (length ''0123456789'') \<lparr> pstart = Fin 100, pend = Fin 5 \<rparr>
   \<and> \<not> validPosition (length ''0123456789'') \<lparr> pstart = Fin 2, pend = Fin (- 4) \<rparr>"
  by (simp add: escapingData_def escapingResult_def build_eval validPosition_def)

subsection \<open>Scores\<close>

lemma clampScore_falsy: "\<not> truthy v \<Longrightarrow> clampScore coerce v = Some (Fin 5)"
  by (simp add: clampScore_def orElse_def ToNumber_def Math_max_def Math_min_def)

lemma clampScore_number:
  assumes "n \<noteq> NaN" and "n \<noteq> Fin 0"
  shows "clampScore coerce (JNum n) = Some (clampInto (Fin 1) (Fin 10) n)"
  using assms
  by (cases n) (auto simp: clampScore_def clampInto_def orElse_def ToNumber_def Math_max_def Math_min_def)

lemma clampInto_range:
  assumes "n \<noteq> NaN"
  shows "inScoreRange (clampInto (Fin 1) (Fin 10) n)"
  using assms by (cases n) (auto simp: inScoreRange_def clampInto_def)

lemma clampInto_integer:
  assumes "isInteger n"
  shows "isInteger (clampInto (Fin 1) (Fin 10) n)"
proof (cases n)
  case (Fin q)
  with assms have "q = of_int \<lfloor>q\<rfloor>" by (simp add: isInteger_def)
  with Fin show ?thesis
    by (auto simp: isInteger_def clampInto_def)
qed (use assms in \<open>simp_all add: isInteger_def\<close>)

text \<open>
  C4. Claim: the returned readability and clarity scores are integers in [1,10], and equal
  5 whenever the provider's value is absent or non-numeric. Counterexample: when the
  provider's readability score is an object and its clarity score is 7.5, the response is
  accepted, the readability score is NaN (not in [1,10], not 5) and the clarity score is
  7.5 (not an integer).
\<close>

theorem parser_scores_counterexample:
  "buildAnalysisResult coerceNaN oddScoresData ''Some text.'' ''post-1'' 1000 ''k3j9x2m1q''
     = Some oddScoresResult
   \<and> readabilityScore (metrics oddScoresResult) = NaN
   \<and> \<not> inScoreRange (readabilityScore (metrics oddScoresResult))
   \<and> clarityScore (metrics oddScoresResult) = Fin (15 / 2)
   \<and> \<not> isInteger (clarityScore (metrics oddScoresResult))"
proof -
  have "\<not> isInteger (Fin (15 / 2))"
    by code_simp
  then show ?thesis
    by (simp add: oddScoresData_def oddScoresResult_def build_eval inScoreRange_def)
qed

text \<open>
  C4, amended. For every provider response the parser accepts: a score is 5 whenever the
  provider's value for it is absent or falsy (\<open>null\<close>, \<open>false\<close>, 0, NaN, the empty
  string); whenever the provider's value is a number other than 0 and NaN, the score is
  exactly that number clamped into [1,10] (1 for a number below 1, 10 for a number above
  10, the number itself, unrounded, in between), so it lies in [1,10], and it is an
  integer whenever the provider's number is one. Nothing is promised for other values (a
  non-empty string, \<open>true\<close>, an array, an object).
\<close>

theorem parser_scores_clamped:
  assumes "buildAnalysisResult coerce d c pid now rnd = Some r"
  shows "\<exists>m. getProp d ''metrics'' = Some m
    \<and> (\<not> truthy (optProp m ''readabilityScore'') \<longrightarrow> readabilityScore (metrics r) = Fin 5)
    \<and> (\<not> truthy (optProp m ''clarityScore'') \<longrightarrow> clarityScore (metrics r) = Fin 5)
    \<and> (\<forall>n. optProp m ''readabilityScore'' = JNum n \<and> n \<noteq> NaN \<and> n \<noteq> Fin 0 \<longrightarrow>
          readabilityScore (metrics r) = clampInto (Fin 1) (Fin 10) n
          \<and> inScoreRange (readabilityScore (metrics r))
          \<and> (isInteger n \<longrightarrow> isInteger (readabilityScore (metrics r))))
    \<and> (\<forall>n. optProp m ''clarityScore'' = JNum n \<and> n \<noteq> NaN \<and> n \<noteq> Fin 0 \<longrightarrow>
          clarityScore (metrics r) = clampInto (Fin 1) (Fin 10) n
          \<and> inScoreRange (clarityScore (metrics r))
          \<and> (isInteger n \<longrightarrow> isInteger (clarityScore (metrics r))))"
proof -
  from buildAnalysisResult_Some [OF assms] obtain m where
    m: "getProp d ''metrics'' = Some m"
    and rs: "clampScore coerce (optProp m ''readabilityScore'') = Some (readabilityScore (metrics r))"
    and cs: "clampScore coerce (optProp m ''clarityScore'') = Some (clarityScore (metrics r))"
    by blast
  have falsy: "\<not> truthy v \<longrightarrow> x = Fin 5" if "clampScore coerce v = Some x" for v x
    using that by (auto simp: clampScore_falsy)
  have number: "\<forall>n. v = JNum n \<and> n \<noteq> NaN \<and> n \<noteq> Fin 0 \<longrightarrow>
      x = clampInto (Fin 1) (Fin 10) n \<and> inScoreRange x \<and> (isInteger n \<longrightarrow> isInteger x)"
    if "clampScore coerce v = Some x" for v x
    using that by (auto simp: clampScore_number clampInto_range clampInto_integer)
  from m falsy [OF rs] falsy [OF cs] number [OF rs] number [OF cs] show ?thesis
    by blast
qed

theorem parser_scores_clamped_witness:
  "buildAnalysisResult coerceNaN highScoreData ''Some text.'' ''post-1'' 1000 ''k3j9x2m1q''
     = Some highScoreResult
   \<and> clarityScore (metrics highScoreResult) = Fin 5
   \<and> readabilityScore (metrics highScoreResult) = clampInto (Fin 1) (Fin 10) (Fin 15)
   \<and> clampInto (Fin 1) (Fin 10) (Fin 15) = Fin 10
   \<and> inScoreRange (readabilityScore (metrics highScoreResult))
   \<and> isInteger (readabilityScore (metrics highScoreResult))"
proof -
  have b: "buildAnalysisResult coerceNaN highScoreData ''Some text.'' ''post-1'' 1000 ''k3j9x2m1q''
     = Some highScoreResult"
    by (simp add: highScoreData_def highScoreResult_def build_eval)
  have m: "getProp highScoreData ''metrics''
     = Some (JObj [(''readabilityScore'', JNum (Fin 15)), (''toneAnalysis'', JStr ''Formal'')])"
    by (simp add: highScoreData_def)
  have i: "isInteger (Fin 15)"
    by (simp add: isInteger_def)
  have c: "clampInto (Fin 1) (Fin 10) (Fin 15) = Fin 10"
    by (simp add: clampInto_def)
  from parser_scores_clamped [OF b] m i
  have "clarityScore (metrics highScoreResult) = Fin 5
     \<and> readabilityScore (metrics highScoreResult) = clampInto (Fin 1) (Fin 10) (Fin 15)
     \<and> inScoreRange (readabilityScore (metrics highScoreResult))
     \<and> isInteger (readabilityScore (metrics highScoreResult))"
    by (auto simp: optProp_def)
  with b c show ?thesis by auto
qed

subsection \<open>Suggestion type and severity\<close>

lemma mapSuggestion_Some:
  assumes "mapSuggestion coerce len s = Some g"
  shows "sg_type g = orElse (optProp s ''type'') (JStr ''clarity'')"
    and "sg_severity g = orElse (optProp s ''severity'') (JStr ''low'')"
  using assms by (auto simp: mapSuggestion_def bind_eq_Some_conv)

lemma itemConverts_type_severity:
  "itemConverts (JObj ((''type'', t) # (''severity'', v) # kvs)) = itemConverts (JObj kvs)"
  by (simp add: itemConverts_def optProp_def)

text \<open>
  C5. Claim: a suggestion type outside {clarity, tone, structure, grammar} is replaced by
  \<open>clarity\<close> and a severity outside {low, medium, high} by \<open>low\<close>. Counterexample: a
  suggestion of type \<open>style\<close> and severity \<open>critical\<close> is returned with type \<open>style\<close> and
  severity \<open>critical\<close>.
\<close>

theorem parser_unknown_type_counterexample:
  "buildAnalysisResult coerceNaN unknownTypeData ''Some text.'' ''post-1'' 1000 ''k3j9x2m1q''
     = Some unknownTypeResult
   \<and> map sg_type (suggestions unknownTypeResult) = [JStr ''style'']
   \<and> map sg_severity (suggestions unknownTypeResult) = [JStr ''critical'']"
  by (simp add: unknownTypeData_def unknownTypeResult_def build_eval)

text \<open>
  C5, amended. No value of type or severity makes the parser reject a response: the
  parser accepts provider data exactly when \<open>acceptsData\<close> holds of it, which reads no
  type and no severity; it maps a suggestion exactly when the suggestion is neither
  \<open>null\<close> nor \<open>undefined\<close> and the bounds of its position convert to numbers; and a
  suggestion object is mapped with a type \<open>t\<close> and a severity \<open>v\<close>, whatever they are,
  exactly when it is mapped without them. For every provider response the parser
  accepts, each suggestion of the response gives one suggestion of the result, in order;
  its type is \<open>clarity\<close> when the provider's type is absent or falsy and is the provider's
  value, unchanged, otherwise (whether or not it is one of the four known types); its
  severity is \<open>low\<close> when the provider's severity is absent or falsy and the provider's
  value otherwise.
\<close>

theorem parser_suggestion_defaults:
  "(buildAnalysisResult coerce d c pid now rnd \<noteq> None) = acceptsData d
   \<and> (\<forall>s. (mapSuggestion coerce (length c) s \<noteq> None) = itemConverts s)
   \<and> (\<forall>t v kvs.
         (mapSuggestion coerce (length c) (JObj ((''type'', t) # (''severity'', v) # kvs)) \<noteq> None)
           = (mapSuggestion coerce (length c) (JObj kvs) \<noteq> None))
   \<and> (\<forall>r. buildAnalysisResult coerce d c pid now rnd = Some r \<longrightarrow>
         (\<exists>ss. optProp d ''suggestions'' = JArr ss \<and> length (suggestions r) = length ss
           \<and> (\<forall>i<length ss.
                 sg_type (suggestions r ! i) =
                   (if truthy (optProp (ss ! i) ''type'') then optProp (ss ! i) ''type''
                    else JStr ''clarity'')
               \<and> sg_severity (suggestions r ! i) =
                   (if truthy (optProp (ss ! i) ''severity'') then optProp (ss ! i) ''severity''
                    else JStr ''low''))))"
proof (intro conjI allI impI)
  show "(buildAnalysisResult coerce d c pid now rnd \<noteq> None) = acceptsData d"
    by (simp add: buildAnalysisResult_None)
next
  fix s
  show "(mapSuggestion coerce (length c) s \<noteq> None) = itemConverts s"
    by (simp add: mapSuggestion_None)
next
  fix t v kvs
  show "(mapSuggestion coerce (length c) (JObj ((''type'', t) # (''severity'', v) # kvs)) \<noteq> None)
           = (mapSuggestion coerce (length c) (JObj kvs) \<noteq> None)"
    by (simp only: mapSuggestion_None itemConverts_type_severity)
next
  fix r
  assume acc: "buildAnalysisResult coerce d c pid now rnd = Some r"
  from buildAnalysisResult_Some [OF acc] obtain ss where
    ss: "optProp d ''suggestions'' = JArr ss"
    and tr: "traverse (mapSuggestion coerce (length c)) ss = Some (suggestions r)"
    by blast
  from traverse_Some [OF tr] have len: "length (suggestions r) = length ss"
    and each: "\<forall>i<length ss. mapSuggestion coerce (length c) (ss ! i) = Some (suggestions r ! i)"
    by simp_all
  have "\<forall>i<length ss.
          sg_type (suggestions r ! i) =
            (if truthy (optProp (ss ! i) ''type'') then optProp (ss ! i) ''type'' else JStr ''clarity'')
        \<and> sg_severity (suggestions r ! i) =
            (if truthy (optProp (ss ! i) ''severity'') then optProp (ss ! i) ''severity'' else JStr ''low'')"
  proof (intro allI impI)
    fix i assume "i < length ss"
    with each have "mapSuggestion coerce (length c) (ss ! i) = Some (suggestions r ! i)"
      by simp
    from mapSuggestion_Some [OF this] show
      "sg_type (suggestions r ! i) =
            (if truthy (optProp (ss ! i) ''type'') then optProp (ss ! i) ''type'' else JStr ''clarity'')
        \<and> sg_severity (suggestions r ! i) =
            (if truthy (optProp (ss ! i) ''severity'') then optProp (ss ! i) ''severity'' else JStr ''low'')"
      by (simp add: orElse_def)
  qed
  with ss len show "\<exists>ss. optProp d ''suggestions'' = JArr ss \<and> length (suggestions r) = length ss
           \<and> (\<forall>i<length ss.
                 sg_type (suggestions r ! i) =
                   (if truthy (optProp (ss ! i) ''type'') then optProp (ss ! i) ''type''
                    else JStr ''clarity'')
               \<and> sg_severity (suggestions r ! i) =
                   (if truthy (optProp (ss ! i) ''severity'') then optProp (ss ! i) ''severity''
                    else JStr ''low''))"
    by blast
qed

theorem parser_suggestion_defaults_witness:
  "acceptsData missingTypeData
   \<and> buildAnalysisResult coerceNaN missingTypeData ''Some text.'' ''post-1'' 1000 ''k3j9x2m1q''
       = Some missingTypeResult
   \<and> sg_type (suggestions missingTypeResult ! 0) = JStr ''clarity''
   \<and> sg_severity (suggestions missingTypeResult ! 0) = JStr ''high''
   \<and> acceptsData unknownTypeData
   \<and> buildAnalysisResult coerceNaN unknownTypeData ''Some text.'' ''post-1'' 1000 ''k3j9x2m1q'' \<noteq> None"
proof -
  note inst = parser_suggestion_defaults [where coerce = coerceNaN and c = "''Some text.''"
      and pid = "''post-1''" and now = 1000 and rnd = "''k3j9x2m1q''"]
  have a: "acceptsData missingTypeData"
    by (simp add: missingTypeData_def acceptsData_def itemConverts_def positionConverts_def
          converts_def optProp_def orElse_def)
  have u: "acceptsData unknownTypeData"
    by (simp add: unknownTypeData_def acceptsData_def itemConverts_def positionConverts_def
          converts_def optProp_def orElse_def)
  have b: "buildAnalysisResult coerceNaN missingTypeData ''Some text.'' ''post-1'' 1000 ''k3j9x2m1q''
     = Some missingTypeResult"
    by (simp add: missingTypeData_def missingTypeResult_def build_eval)
  have s: "optProp missingTypeData ''suggestions''
     = JArr [JObj [(''severity'', JStr ''high''), (''description'', JStr ''Shorten.'')]]"
    by (simp add: missingTypeData_def optProp_def)
  from inst [where d = missingTypeData] b s
  have "sg_type (suggestions missingTypeResult ! 0) = JStr ''clarity''
     \<and> sg_severity (suggestions missingTypeResult ! 0) = JStr ''high''"
    by (simp add: optProp_def)
  moreover from inst [where d = unknownTypeData] u
  have "buildAnalysisResult coerceNaN unknownTypeData ''Some text.'' ''post-1'' 1000 ''k3j9x2m1q'' \<noteq> None"
    by blast
  ultimately show ?thesis using a b u by simp
qed

section \<open>The repairer\<close>




section \<open>The heuristic analyzer\<close>

subsection \<open>Tone\<close>

lemma analyzeTone_counts:
  "analyzeTone content =
     (if technicalCount content > formalCount content \<and> technicalCount content > casualCount content
        then ''Technical''
      else if formalCount content > casualCount content \<and> formalCount content > emotionalCount content
        then ''Formal''
      else if casualCount content > formalCount content then ''Casual''
      else if emotionalCount content > 2 then ''Emotional''
      else ''Neutral'')"
  by (simp add: analyzeTone_def Let_def formalCount_def casualCount_def technicalCount_def
      emotionalCount_def)

text \<open>
  C6. Claim: the tone is the keyword set with the strict highest count among the four,
  with precedence Technical > Formal > Casual > Emotional (only above 2), and Neutral
  otherwise. Counterexample: in the content "I implement it: love, love, love." the
  emotional set has the strict highest count, 3 (above 2), against 1 technical, 0 formal
  and 0 casual keywords, and the tone is Technical.
\<close>

theorem tone_strict_highest_counterexample:
  "emotionalCount lovingText = 3 \<and> technicalCount lovingText = 1
   \<and> formalCount lovingText = 0 \<and> casualCount lovingText = 0
   \<and> analyzeTone lovingText = ''Technical''"
proof -
  have e: "emotionalCount lovingText = 3"
    unfolding lovingText_def by code_simp
  have t: "technicalCount lovingText = 1"
    unfolding lovingText_def by code_simp
  have f: "formalCount lovingText = 0"
    unfolding lovingText_def by code_simp
  have c: "casualCount lovingText = 0"
    unfolding lovingText_def by code_simp
  show ?thesis
    by (simp add: analyzeTone_counts e t f c)
qed

text \<open>
  C6, amended. The tone is decided from the four keyword counts by these tests, in this
  order: Technical when the technical count strictly exceeds the formal and the casual
  count (the emotional count is not compared); else Formal when the formal count strictly
  exceeds the casual and the emotional count; else Casual when the casual count strictly
  exceeds the formal count; else Emotional when the emotional count exceeds 2; else
  Neutral. So a technical, formal or casual set with the strict highest count of the
  four wins; an emotional set with the strict highest count wins only if its count
  exceeds 2 and neither the Technical nor the Casual test holds.
\<close>

theorem tone_decision_order:
  fixes content :: string
  defines "nT \<equiv> technicalCount content" and "nF \<equiv> formalCount content"
    and "nC \<equiv> casualCount content" and "nE \<equiv> emotionalCount content"
  shows "(analyzeTone content = ''Technical'') = (nT > nF \<and> nT > nC)
    \<and> (analyzeTone content = ''Formal'') = (\<not> (nT > nF \<and> nT > nC) \<and> nF > nC \<and> nF > nE)
    \<and> (analyzeTone content = ''Casual'') = (\<not> (nT > nF \<and> nT > nC) \<and> \<not> (nF > nC \<and> nF > nE) \<and> nC > nF)
    \<and> (analyzeTone content = ''Emotional'') =
         (\<not> (nT > nF \<and> nT > nC) \<and> \<not> (nF > nC \<and> nF > nE) \<and> \<not> nC > nF \<and> nE > 2)
    \<and> (analyzeTone content = ''Neutral'') =
         (\<not> (nT > nF \<and> nT > nC) \<and> \<not> (nF > nC \<and> nF > nE) \<and> \<not> nC > nF \<and> \<not> nE > 2)
    \<and> (nT > nF \<and> nT > nC \<and> nT > nE \<longrightarrow> analyzeTone content = ''Technical'')
    \<and> (nF > nT \<and> nF > nC \<and> nF > nE \<longrightarrow> analyzeTone content = ''Formal'')
    \<and> (nC > nT \<and> nC > nF \<and> nC > nE \<longrightarrow> analyzeTone content = ''Casual'')"
  unfolding nT_def nF_def nC_def nE_def analyzeTone_counts [of content]
  by auto

theorem tone_decision_order_witness:
  "formalCount formalText = 2 \<and> casualCount formalText = 1
   \<and> technicalCount formalText = 0 \<and> emotionalCount formalText = 0
   \<and> analyzeTone formalText = ''Formal''"
proof -
  have f: "formalCount formalText = 2"
    unfolding formalText_def by code_simp
  have c: "casualCount formalText = 1"
    unfolding formalText_def by code_simp
  have t: "technicalCount formalText = 0"
    unfolding formalText_def by code_simp
  have e: "emotionalCount formalText = 0"
    unfolding formalText_def by code_simp
  from tone_decision_order [of formalText] f c t e
  have "analyzeTone formalText = ''Formal''" by simp
  with f c t e show ?thesis by simp
qed

subsection \<open>Scores\<close>

text \<open>
  The analyzer counts the pieces that are left of three splits by regular expressions.
  The counts are those of the one-pass definitions: splitting by a run of characters of
  a class gives the \<open>pieces\<close> between the runs, and the pieces with a character in them
  are as many as the starts of words, sentences and paragraphs.
\<close>

lemma star_class_hd:
  "\<exists>ms. matches (Star (C k)) (b, r, g)
     = (rev (takeWhile (accepts k) r) @ b, dropWhile (accepts k) r, g) # ms"
proof (induction r arbitrary: b)
  case Nil
  show ?case by (simp add: matches.simps(2,5))
next
  case (Cons c cs)
  show ?case
  proof (cases "accepts k c")
    case True
    from Cons [of "c # b"] obtain ms where
      "matches (Star (C k)) (c # b, cs, g)
        = (rev (takeWhile (accepts k) cs) @ c # b, dropWhile (accepts k) cs, g) # ms"
      by blast
    with True show ?thesis
      by (simp add: matches.simps(5) [of "C k" "(b, c # cs, g)"] matches.simps(2) shorter_def)
  next
    case False
    then show ?thesis
      by (simp add: matches.simps(5) [of "C k" "(b, c # cs, g)"] matches.simps(2))
  qed
qed

lemma plus_class_Nil: "matches (plus (C k)) (b, [], g) = []"
  by (simp add: plus_def matches.simps(2,3))

lemma plus_class_Cons:
  "matches (plus (C k)) (b, c # cs, g)
     = (if accepts k c then matches (Star (C k)) (c # b, cs, g) else [])"
  by (simp add: plus_def matches.simps(2,3))

lemma splitGo_plus_class: "splitGo (plus (C k)) cur b r = pieces (accepts k) cur r"
proof (induction "accepts k" cur r arbitrary: b rule: pieces.induct)
  case (1 cur)
  show ?case by (simp add: splitGo.simps(1))
next
  case (2 cur c cs)
  show ?case
  proof (cases "accepts k c")
    case True
    from star_class_hd [of k "c # b" cs None] obtain ms where
      ms: "matches (Star (C k)) (c # b, cs, None)
        = (rev (takeWhile (accepts k) cs) @ c # b, dropWhile (accepts k) cs, None) # ms"
      by blast
    have "length (dropWhile (accepts k) cs) < Suc (length cs)"
      by (simp add: length_dropWhile_le less_Suc_eq_le)
    with True ms 2(1) [OF True] show ?thesis
      by (simp add: splitGo.simps(2) [of _ cur b c cs] plus_class_Cons)
  next
    case False
    with 2(2) [OF False] show ?thesis
      by (simp add: splitGo.simps(2) [of _ cur b c cs] plus_class_Cons)
  qed
qed

lemma splitRe_plus_class: "splitRe (plus (C k)) s = pieces (accepts k) [] s"
  by (cases s) (simp_all add: splitRe_def splitGo_plus_class plus_class_Nil)

lemma accepts_Space: "accepts Space = isSpace"
  by (rule ext) simp

lemma accepts_terminator: "accepts (OneOf ''.!?'') = isTerminator"
  by (rule ext) (simp add: isTerminator_def)

lemma wordStarts_leading: "wordStarts False (dropWhile isSpace s) = wordStarts False s"
  by (induction s) simp_all

lemma wordStarts_spaces: "\<forall>c\<in>set ys. isSpace c \<Longrightarrow> wordStarts f ys = 0"
  by (induction ys arbitrary: f) simp_all

lemma wordStarts_trailing: "\<forall>c\<in>set ys. isSpace c \<Longrightarrow> wordStarts f (xs @ ys) = wordStarts f xs"
  by (induction xs arbitrary: f) (simp_all add: wordStarts_spaces)

lemma rev_dropWhile_rev: "rev (dropWhile P (rev xs)) @ rev (takeWhile P (rev xs)) = xs"
proof -
  have "rev (takeWhile P (rev xs) @ dropWhile P (rev xs)) = xs"
    by simp
  then show ?thesis by (simp only: rev_append)
qed

lemma wordStarts_trim: "wordStarts False (trim s) = wordStarts False s"
proof -
  let ?d = "dropWhile isSpace s"
  have "wordStarts False (trim s @ rev (takeWhile isSpace (rev ?d))) = wordStarts False (trim s)"
    by (rule wordStarts_trailing) (auto dest: set_takeWhileD)
  moreover have "trim s @ rev (takeWhile isSpace (rev ?d)) = ?d"
    unfolding trim_def by (rule rev_dropWhile_rev)
  ultimately show ?thesis by (simp add: wordStarts_leading)
qed

lemma pieces_words:
  "length (filter (\<lambda>word. word \<noteq> []) (pieces isSpace cur r))
     = wordStarts (cur \<noteq> []) r + (if cur \<noteq> [] then 1 else 0)"
proof (induction isSpace cur r rule: pieces.induct)
  case (1 cur)
  show ?case by simp
next
  case (2 cur c cs)
  show ?case
  proof (cases "isSpace c")
    case True
    with 2(1) show ?thesis by (simp add: wordStarts_leading)
  next
    case False
    from 2(2) [OF False] have "length (filter (\<lambda>word. word \<noteq> []) (pieces isSpace (c # cur) cs))
      = wordStarts True cs + 1"
      by simp
    with False show ?thesis by simp
  qed
qed

lemma contentWords_count: "length (contentWords content) = wordStarts False content"
  using pieces_words [of "[]" "trim content"]
  by (simp add: contentWords_def splitRe_plus_class accepts_Space wordStarts_trim)

lemma trim_empty: "(trim s = []) = (\<forall>c\<in>set s. isSpace c)"
proof -
  have "set s = set (takeWhile isSpace s) \<union> set (dropWhile isSpace s)"
    by (metis set_append takeWhile_dropWhile_id)
  then show ?thesis
    by (auto simp: trim_def dropWhile_eq_Nil_conv dest: set_takeWhileD)
qed

lemma sentenceStarts_leading:
  "sentenceStarts False (dropWhile isTerminator s) = sentenceStarts False s"
  by (induction s) simp_all

lemma pieces_sentences:
  "length (filter (\<lambda>s. trim s \<noteq> []) (pieces isTerminator cur r))
     = sentenceStarts (\<exists>c\<in>set cur. \<not> isSpace c) r + (if \<exists>c\<in>set cur. \<not> isSpace c then 1 else 0)"
proof (induction isTerminator cur r rule: pieces.induct)
  case (1 cur)
  show ?case by (simp add: trim_empty)
next
  case (2 cur c cs)
  show ?case
  proof (cases "isTerminator c")
    case True
    with 2(1) show ?thesis
      by (simp add: trim_empty sentenceStarts_leading)
  next
    case False
    from 2(2) [OF False]
    have ih: "length (filter (\<lambda>s. trim s \<noteq> []) (pieces isTerminator (c # cur) cs))
      = sentenceStarts (\<exists>x\<in>set (c # cur). \<not> isSpace x) cs
          + (if \<exists>x\<in>set (c # cur). \<not> isSpace x then 1 else 0)" .
    show ?thesis
    proof (cases "isSpace c")
      case True
      with False ih show ?thesis by simp
    next
      case ns: False
      with False ih show ?thesis by simp
    qed
  qed
qed

lemma contentSentences_count: "length (contentSentences content) = sentenceStarts False content"
  using pieces_sentences [of "[]" content]
  by (simp add: contentSentences_def splitRe_plus_class accepts_terminator)

text \<open>
  The separator of paragraphs, \<open>/\\n\\s*\\n/\<close>, matches at a newline when the whitespace
  after it holds another newline, and then up to the last one.
\<close>

lemma isSpace_NL: "isSpace (CHR 0x0A)"
  by (simp add: isSpace_def)

lemma star_seq_Nil: "matches (Seq (Star (C k)) q) (b, [], g) = matches q (b, [], g)"
  by (simp add: matches.simps(3) matches.simps(5) [of "C k"] matches.simps(2))

lemma star_seq_Cons:
  "matches (Seq (Star (C k)) q) (b, c # cs, g)
     = (if accepts k c then matches (Seq (Star (C k)) q) (c # b, cs, g) else [])
       @ matches q (b, c # cs, g)"
  by (simp add: matches.simps(3) matches.simps(5) [of "C k" "(b, c # cs, g)"] matches.simps(2)
        shorter_def)

lemma newline_eps_Nil: "matches (Seq (C (Lit a)) Eps) (b, [], g) = []"
  by (simp add: matches.simps(1,2,3))

lemma newline_eps_Cons:
  "matches (Seq (C (Lit a)) Eps) (b, c # cs, g) = (if c = a then [(c # b, cs, g)] else [])"
  by (simp add: matches.simps(1,2,3))

lemma blank_matches:
  "(afterBlank r = None \<longrightarrow>
      matches (Seq (Star (C Space)) (Seq (C (Lit CHR 0x0A)) Eps)) (b, r, g) = [])
   \<and> (\<forall>t. afterBlank r = Some t \<longrightarrow>
        (\<exists>b' ms. matches (Seq (Star (C Space)) (Seq (C (Lit CHR 0x0A)) Eps)) (b, r, g)
           = (b', t, g) # ms))"
proof (induction r arbitrary: b)
  case Nil
  show ?case by (simp add: star_seq_Nil newline_eps_Nil)
next
  case (Cons c cs)
  show ?case
  proof (cases "isSpace c")
    case False
    then have "c \<noteq> CHR 0x0A" using isSpace_NL by auto
    with False show ?thesis by (simp add: star_seq_Cons newline_eps_Cons)
  next
    case True
    show ?thesis
    proof (cases "afterBlank cs")
      case None
      with Cons [of "c # b"] have
        "matches (Seq (Star (C Space)) (Seq (C (Lit CHR 0x0A)) Eps)) (c # b, cs, g) = []"
        by simp
      with True None show ?thesis by (simp add: star_seq_Cons newline_eps_Cons)
    next
      case (Some t)
      with Cons [of "c # b"] obtain b' ms where
        "matches (Seq (Star (C Space)) (Seq (C (Lit CHR 0x0A)) Eps)) (c # b, cs, g) = (b', t, g) # ms"
        by auto
      with True Some show ?thesis by (simp add: star_seq_Cons)
    qed
  qed
qed

lemma afterBlank_length: "afterBlank r = Some t \<Longrightarrow> length t < length r"
  by (induction r) (auto split: if_splits option.splits)

lemma afterBlank_None: "(afterBlank r = None) = (CHR 0x0A \<notin> set (takeWhile isSpace r))"
  by (induction r) (auto split: option.splits)

lemma paragraphRe_Cons:
  "matches paragraphRe (b, c # cs, g)
     = (if c = CHR 0x0A
        then matches (Seq (Star (C Space)) (Seq (C (Lit CHR 0x0A)) Eps)) (c # b, cs, g) else [])"
  by (simp add: paragraphRe_def seqs_def matches.simps(3) [of "C (Lit CHR 0x0A)"] matches.simps(2))

lemma paragraphRe_Nil: "matches paragraphRe (b, [], g) = []"
  by (simp add: paragraphRe_def seqs_def matches.simps(3) [of "C (Lit CHR 0x0A)"] matches.simps(2))

lemma paragraphStarts_fresh:
  "(\<not> f \<or> 2 \<le> k) \<Longrightarrow> (\<not> f' \<or> 2 \<le> k') \<Longrightarrow> paragraphStarts f k r = paragraphStarts f' k' r"
proof (induction r arbitrary: k k')
  case Nil
  show ?case by simp
next
  case (Cons c cs)
  from Cons.prems have "paragraphStarts f (Suc k) cs = paragraphStarts f' (Suc k') cs"
    by (intro Cons.IH) auto
  moreover from Cons.prems have "paragraphStarts f k cs = paragraphStarts f' k' cs"
    by (intro Cons.IH) auto
  ultimately show ?case using Cons.prems by auto
qed

lemma paragraphStarts_afterBlank:
  "afterBlank r = Some t \<Longrightarrow> 1 \<le> k \<Longrightarrow> paragraphStarts f k r = paragraphStarts False 0 t"
proof (induction r arbitrary: k)
  case Nil
  then show ?case by simp
next
  case (Cons c cs)
  from Cons.prems have sp: "isSpace c" by (simp split: if_splits)
  show ?case
  proof (cases "afterBlank cs")
    case None
    with Cons.prems sp have c: "c = CHR 0x0A" and t: "t = cs" by (simp_all split: if_splits)
    have "paragraphStarts f (Suc k) cs = paragraphStarts False 0 cs"
      using Cons.prems(2) by (intro paragraphStarts_fresh) auto
    with c t show ?thesis by simp
  next
    case (Some t')
    with Cons.prems sp have t: "t' = t" by simp
    from Cons.IH [OF Some [unfolded t], of k] Cons.IH [OF Some [unfolded t], of "Suc k"] Cons.prems(2) sp
    show ?thesis by simp
  qed
qed

lemma splitGo_paragraphs:
  assumes "f = (\<exists>c\<in>set cur. \<not> isSpace c)"
    and "k \<le> 1"
    and "(k = 1) = (CHR 0x0A \<in> set (takeWhile isSpace cur))"
    and "k = 1 \<longrightarrow> CHR 0x0A \<notin> set (takeWhile isSpace r)"
  shows "length (filter (\<lambda>p. trim p \<noteq> []) (splitGo paragraphRe cur b r))
     = paragraphStarts f k r + (if f then 1 else 0)"
  using assms
proof (induction "length r" arbitrary: r cur b f k rule: less_induct)
  case less
  show ?case
  proof (cases r)
    case Nil
    with less.prems(1) show ?thesis by (simp add: splitGo.simps(1) trim_empty)
  next
    case (Cons c cs)
    show ?thesis
    proof (cases "c = CHR 0x0A")
      case nl: True
      with less.prems(4) Cons isSpace_NL have k0: "k = 0" using less.prems(2) by (cases k) auto
      have ps: "paragraphStarts f k r = paragraphStarts f 1 cs"
        using Cons nl k0 by simp
      show ?thesis
      proof (cases "afterBlank cs")
        case None
        then have m: "matches paragraphRe (b, c # cs, None) = []"
          using blank_matches [of cs "c # b" None] nl by (simp add: paragraphRe_Cons)
        have step: "splitGo paragraphRe cur b r = splitGo paragraphRe (c # cur) (c # b) cs"
          unfolding Cons by (simp add: splitGo.simps(2) m)
        have "length (filter (\<lambda>p. trim p \<noteq> []) (splitGo paragraphRe (c # cur) (c # b) cs))
           = paragraphStarts f 1 cs + (if f then 1 else 0)"
        proof (rule less.hyps)
          show "length cs < length r" using Cons by simp
          show "f = (\<exists>x\<in>set (c # cur). \<not> isSpace x)" using less.prems(1) nl isSpace_NL by simp
          show "(1::nat) \<le> 1" by simp
          show "((1::nat) = 1) = (CHR 0x0A \<in> set (takeWhile isSpace (c # cur)))"
            using nl isSpace_NL by simp
          show "(1::nat) = 1 \<longrightarrow> CHR 0x0A \<notin> set (takeWhile isSpace cs)"
            using None by (simp add: afterBlank_None)
        qed
        then show ?thesis by (simp only: step ps)
      next
        case (Some t)
        then obtain b' ms where m: "matches paragraphRe (b, c # cs, None) = (b', t, None) # ms"
          using blank_matches [of cs "c # b" None] nl by (auto simp: paragraphRe_Cons)
        from afterBlank_length [OF Some] have lt: "length t < length cs" .
        have step: "splitGo paragraphRe cur b r = rev cur # splitGo paragraphRe [] b' t"
          unfolding Cons using lt by (simp add: splitGo.simps(2) m)
        have "length (filter (\<lambda>p. trim p \<noteq> []) (splitGo paragraphRe [] b' t))
           = paragraphStarts False 0 t + (if False then 1 else 0)"
        proof (rule less.hyps)
          show "length t < length r" using Cons lt by simp
        qed simp_all
        moreover have "paragraphStarts f 1 cs = paragraphStarts False 0 t"
          using Some by (rule paragraphStarts_afterBlank) simp
        moreover have "(trim (rev cur) \<noteq> []) = f"
          using less.prems(1) by (simp add: trim_empty)
        ultimately show ?thesis
          by (simp add: step ps)
      qed
    next
      case nn: False
      then have m: "matches paragraphRe (b, c # cs, None) = []"
        by (simp add: paragraphRe_Cons)
      have step: "splitGo paragraphRe cur b r = splitGo paragraphRe (c # cur) (c # b) cs"
        unfolding Cons by (simp add: splitGo.simps(2) m)
      show ?thesis
      proof (cases "isSpace c")
        case True
        have ps: "paragraphStarts f k r = paragraphStarts f k cs"
          using Cons nn True by simp
        have "length (filter (\<lambda>p. trim p \<noteq> []) (splitGo paragraphRe (c # cur) (c # b) cs))
           = paragraphStarts f k cs + (if f then 1 else 0)"
        proof (rule less.hyps)
          show "length cs < length r" using Cons by simp
          show "f = (\<exists>x\<in>set (c # cur). \<not> isSpace x)" using less.prems(1) True by simp
          show "k \<le> 1" by (rule less.prems(2))
          show "(k = 1) = (CHR 0x0A \<in> set (takeWhile isSpace (c # cur)))"
            using less.prems(3) True nn by auto
          show "k = 1 \<longrightarrow> CHR 0x0A \<notin> set (takeWhile isSpace cs)"
            using less.prems(4) Cons True by auto
        qed
        then show ?thesis by (simp only: step ps)
      next
        case False
        have ps: "paragraphStarts f k r = (if f then 0 else 1) + paragraphStarts True 0 cs"
          using Cons nn False less.prems(2) by simp
        have "length (filter (\<lambda>p. trim p \<noteq> []) (splitGo paragraphRe (c # cur) (c # b) cs))
           = paragraphStarts True 0 cs + (if True then 1 else 0)"
        proof (rule less.hyps)
          show "length cs < length r" using Cons by simp
          show "True = (\<exists>x\<in>set (c # cur). \<not> isSpace x)" using False by simp
          show "((0::nat) = 1) = (CHR 0x0A \<in> set (takeWhile isSpace (c # cur)))"
            using False by simp
        qed simp_all
        then show ?thesis by (simp add: step ps)
      qed
    qed
  qed
qed

lemma contentParagraphs_count: "length (contentParagraphs content) = paragraphStarts False 0 content"
proof (cases content)
  case Nil
  then show ?thesis
    using paragraphRe_Nil [of "[]" None]
    by (simp add: contentParagraphs_def splitRe_def trim_def)
next
  case (Cons c cs)
  with splitGo_paragraphs [of False "[]" 0 content "[]"] show ?thesis
    by (simp add: contentParagraphs_def splitRe_def)
qed

text \<open>
  C7. Let \<open>w\<close>, \<open>s\<close> and \<open>p\<close> be the numbers of words, sentences and paragraphs of the
  content, as the analyzer splits it; they are the numbers of starts of words, of
  sentences and of paragraphs in the content. The readability score of the result of
  the heuristic analyzer is 10 minus 2 for each of the thresholds 20, 25, 30 that the
  average sentence length \<open>w / s\<close> (0 when there is no sentence) strictly exceeds; its
  clarity score is 8 minus 1 if the average number \<open>s / p\<close> of sentences per paragraph (0
  when there is no paragraph) exceeds 5 and minus 1 more if the text is a single
  paragraph with more than 10 sentences; the floor at 1 and the cap at 10 never change
  them, and both are integers in [1,10]. The counts and averages that the analyzer
  reports are these.
\<close>

theorem heuristic_scores:
  fixes content :: string and pid :: "string option" and now :: int and rnd :: string
  defines "w \<equiv> length (contentWords content)"
    and "s \<equiv> length (contentSentences content)"
    and "p \<equiv> length (contentParagraphs content)"
  defines "avgWords \<equiv> (if s > 0 then of_nat w / of_nat s else (0::rat))"
    and "avgSentences \<equiv> (if p > 0 then of_nat s / of_nat p else (0::rat))"
    and "r \<equiv> createBasicAnalysis content pid now rnd"
  shows "readabilityScore (metrics r) = Fin (of_int (10 - 2 * int (exceeded avgWords [20, 25, 30])))
    \<and> clarityScore (metrics r) =
          Fin (of_int (8 - (if avgSentences > 5 then 1 else 0) - (if p = 1 \<and> s > 10 then 1 else 0)))
    \<and> inScoreRange (readabilityScore (metrics r))
    \<and> inScoreRange (clarityScore (metrics r))
    \<and> isInteger (readabilityScore (metrics r))
    \<and> isInteger (clarityScore (metrics r))
    \<and> w = wordStarts False content
    \<and> s = sentenceStarts False content
    \<and> p = paragraphStarts False 0 content
    \<and> wordCount (calculateBasicMetrics content) = w
    \<and> sentenceCount (calculateBasicMetrics content) = s
    \<and> paragraphCount (calculateBasicMetrics content) = p
    \<and> avgWordsPerSentence (calculateBasicMetrics content) = avgWords
    \<and> avgSentencesPerParagraph (calculateBasicMetrics content) = avgSentences"
proof -
  have "w = wordStarts False content" "s = sentenceStarts False content"
    "p = paragraphStarts False 0 content"
    unfolding w_def s_def p_def
    by (rule contentWords_count contentSentences_count contentParagraphs_count)+
  moreover have "readabilityScore (metrics r) = Fin (of_int (10 - 2 * int (exceeded avgWords [20, 25, 30])))
    \<and> clarityScore (metrics r) =
          Fin (of_int (8 - (if avgSentences > 5 then 1 else 0) - (if p = 1 \<and> s > 10 then 1 else 0)))
    \<and> inScoreRange (readabilityScore (metrics r))
    \<and> inScoreRange (clarityScore (metrics r))
    \<and> isInteger (readabilityScore (metrics r))
    \<and> isInteger (clarityScore (metrics r))
    \<and> wordCount (calculateBasicMetrics content) = w
    \<and> sentenceCount (calculateBasicMetrics content) = s
    \<and> paragraphCount (calculateBasicMetrics content) = p
    \<and> avgWordsPerSentence (calculateBasicMetrics content) = avgWords
    \<and> avgSentencesPerParagraph (calculateBasicMetrics content) = avgSentences"
    unfolding w_def s_def p_def avgWords_def avgSentences_def r_def
    by (simp add: calculateBasicMetrics_def createBasicAnalysis_def Let_def exceeded_def
          inScoreRange_def isInteger_def)
  ultimately show ?thesis by blast
qed

lemma sentenceOf31_counts:
  "length (contentWords sentenceOf31) = 31"
  "length (contentSentences sentenceOf31) = 1"
  "length (contentParagraphs sentenceOf31) = 1"
  by code_simp+

lemma sentenceOf22_counts:
  "length (contentWords sentenceOf22) = 22"
  "length (contentSentences sentenceOf22) = 1"
  "length (contentParagraphs sentenceOf22) = 1"
  by code_simp+

lemma elevenSentences_counts:
  "length (contentWords elevenSentences) = 11"
  "length (contentSentences elevenSentences) = 11"
  "length (contentParagraphs elevenSentences) = 1"
  by code_simp+

lemma twoParagraphs_counts:
  "length (contentWords twoParagraphs) = 13"
  "length (contentSentences twoParagraphs) = 13"
  "length (contentParagraphs twoParagraphs) = 2"
  by code_simp+

theorem heuristic_scores_witness:
  "readabilityScore (metrics (createBasicAnalysis sentenceOf31 None 1000 ''k3j9x2m1q'')) = Fin 4
   \<and> clarityScore (metrics (createBasicAnalysis sentenceOf31 None 1000 ''k3j9x2m1q'')) = Fin 8
   \<and> readabilityScore (metrics (createBasicAnalysis sentenceOf22 None 1000 ''k3j9x2m1q'')) = Fin 8
   \<and> readabilityScore (metrics (createBasicAnalysis elevenSentences None 1000 ''k3j9x2m1q'')) = Fin 10
   \<and> clarityScore (metrics (createBasicAnalysis elevenSentences None 1000 ''k3j9x2m1q'')) = Fin 6
   \<and> readabilityScore (metrics (createBasicAnalysis twoParagraphs None 1000 ''k3j9x2m1q'')) = Fin 10
   \<and> clarityScore (metrics (createBasicAnalysis twoParagraphs None 1000 ''k3j9x2m1q'')) = Fin 7"
proof -
  note a = heuristic_scores [of sentenceOf31 None 1000 "''k3j9x2m1q''", unfolded sentenceOf31_counts]
  note b = heuristic_scores [of sentenceOf22 None 1000 "''k3j9x2m1q''", unfolded sentenceOf22_counts]
  note c = heuristic_scores [of elevenSentences None 1000 "''k3j9x2m1q''", unfolded elevenSentences_counts]
  note d = heuristic_scores [of twoParagraphs None 1000 "''k3j9x2m1q''", unfolded twoParagraphs_counts]
  have "readabilityScore (metrics (createBasicAnalysis sentenceOf31 None 1000 ''k3j9x2m1q'')) = Fin 4"
    using a [THEN conjunct1] by (simp add: exceeded_def)
  moreover have "clarityScore (metrics (createBasicAnalysis sentenceOf31 None 1000 ''k3j9x2m1q'')) = Fin 8"
    using a [THEN conjunct2, THEN conjunct1] by simp
  moreover have "readabilityScore (metrics (createBasicAnalysis sentenceOf22 None 1000 ''k3j9x2m1q'')) = Fin 8"
    using b [THEN conjunct1] by (simp add: exceeded_def)
  moreover have "readabilityScore (metrics (createBasicAnalysis elevenSentences None 1000 ''k3j9x2m1q'')) = Fin 10"
    using c [THEN conjunct1] by (simp add: exceeded_def)
  moreover have "clarityScore (metrics (createBasicAnalysis elevenSentences None 1000 ''k3j9x2m1q'')) = Fin 6"
    using c [THEN conjunct2, THEN conjunct1] by simp
  moreover have "readabilityScore (metrics (createBasicAnalysis twoParagraphs None 1000 ''k3j9x2m1q'')) = Fin 10"
    using d [THEN conjunct1] by (simp add: exceeded_def)
  moreover have "clarityScore (metrics (createBasicAnalysis twoParagraphs None 1000 ''k3j9x2m1q'')) = Fin 7"
    using d [THEN conjunct2, THEN conjunct1] by simp
  ultimately show ?thesis by blast
qed

subsection \<open>Positions\<close>

text \<open>
  The heuristic path keeps every position inside the content: a suggestion spans the
  whole content, and an ambiguous phrase lies where its pattern matched. (The parser of
  provider responses does not, see above.)
\<close>

lemma search_positions:
  assumes "search p b r = Some (st, st')"
  shows "length (fst st) \<le> length (fst st')"
    and "length (fst st') \<le> length b + length r"
proof -
  from search_suffix [OF assms]
  have a: "rev (fst st) @ fst (snd st) = rev b @ r"
    and b: "rev (fst st') @ fst (snd st') = rev b @ r"
    and c: "length (fst (snd st')) \<le> length (fst (snd st))"
    by simp_all
  from a have a': "length (fst st) + length (fst (snd st)) = length b + length r"
    by (metis length_append length_rev)
  from b have b': "length (fst st') + length (fst (snd st')) = length b + length r"
    by (metis length_append length_rev)
  from a' b' c show "length (fst st) \<le> length (fst st')" by linarith
  from b' show "length (fst st') \<le> length b + length r" by linarith
qed

lemma search_total:
  assumes "search p b r = Some (st, st')"
  shows "length (fst st') + length (fst (snd st')) = length b + length r"
proof -
  from search_suffix [OF assms]
  have "rev (fst st') @ fst (snd st') = rev b @ r" by simp
  then show ?thesis by (metis length_append length_rev)
qed

lemma allMatchesFrom_positions:
  "m \<in> set (allMatchesFrom p b r) \<Longrightarrow>
     matchIndex m \<le> matchEnd m \<and> matchEnd m \<le> length b + length r"
proof (induction p b r rule: allMatchesFrom.induct)
  case (1 p b r)
  show ?case
  proof (cases "search p b r")
    case None
    with "1.prems" show ?thesis
      by (simp add: allMatchesFrom.simps [of p b r])
  next
    case (Some x)
    obtain st st' where x: "x = (st, st')" by (cases x) auto
    with Some have s: "search p b r = Some (st, st')" by simp
    note pos = search_positions [OF s] and tot = search_total [OF s]
    have unf: "allMatchesFrom p b r =
        (st, st') #
          (if length (fst (snd st')) < length (fst (snd st)) then allMatchesFrom p (fst st') (fst (snd st'))
           else (case fst (snd st') of [] \<Rightarrow> []
                 | c # cs \<Rightarrow> allMatchesFrom p (c # fst st') cs))"
      by (simp add: allMatchesFrom.simps [of p b r] s)
    show ?thesis
    proof (cases "m = (st, st')")
      case True
      with pos show ?thesis by (simp add: matchIndex_def matchEnd_def)
    next
      case False
      note other = False
      show ?thesis
      proof (cases "length (fst (snd st')) < length (fst (snd st))")
        case True
        with "1.prems" other unf have "m \<in> set (allMatchesFrom p (fst st') (fst (snd st')))"
          by simp
        from "1.IH"(1) [OF s refl True this] tot show ?thesis by simp
      next
        case False
        note nlt = False
        show ?thesis
        proof (cases "fst (snd st')")
          case Nil
          with "1.prems" other unf nlt show ?thesis by simp
        next
          case (Cons c cs)
          with "1.prems" other unf nlt have "m \<in> set (allMatchesFrom p (c # fst st') cs)"
            by simp
          from "1.IH"(2) [OF s refl nlt Cons this] tot Cons show ?thesis by simp
        qed
      qed
    qed
  qed
qed

lemma phraseOfMatch_valid:
  assumes "m \<in> set (allMatches p content)"
  shows "validPosition (length content) (ap_position (phraseOfMatch reason sugg m))"
proof -
  from assms allMatchesFrom_positions [of m p "[]" content]
  have le: "matchIndex m \<le> matchEnd m" and up: "matchEnd m \<le> length content"
    by (simp_all add: allMatches_def)
  have "matchEnd m - matchIndex m \<le> length (fst (snd m))"
    by (simp add: matchEnd_def)
  then have len: "length (matchText m) = matchEnd m - matchIndex m"
    by (simp add: matchText_def)
  from le up len show ?thesis
    by (simp add: phraseOfMatch_def validPosition_def)
qed

lemma wholeContent_valid: "validPosition (length content) (wholeContent content)"
  by (simp add: wholeContent_def validPosition_def)

lemma heuristic_positions_valid:
  "list_all (\<lambda>s. validPosition (length content) (sg_position s))
     (suggestions (createBasicAnalysis content pid now rnd))
   \<and> list_all (\<lambda>p. validPosition (length content) (ap_position p))
     (ambiguousPhrases (createBasicAnalysis content pid now rnd))"
proof -
  have "list_all (\<lambda>s. validPosition (length content) (sg_position s))
     (generateBasicSuggestions content m)" for m
    by (simp add: generateBasicSuggestions_def Let_def wholeContent_valid)
  moreover have "list_all (\<lambda>p. validPosition (length content) (ap_position p))
     (detectAmbiguousPhrases content)"
    by (auto simp: detectAmbiguousPhrases_def list_all_iff phraseOfMatch_valid)
  ultimately show ?thesis
    by (simp add: createBasicAnalysis_def Let_def)
qed

text \<open>
  The scenario of the specification: the intensifier pattern finds "very very" at
  10..19 and the vague-noun pattern finds "stuff" at 46..51.
\<close>

lemma scenario_phrases:
  "map (\<lambda>p. (ap_text p, ap_position p))
     (detectAmbiguousPhrases ''This is a very very simple test sentence with stuff in it.'')
   = [(JStr ''stuff'', \<lparr> pstart = Fin 46, pend = Fin 51 \<rparr>),
      (JStr ''very very'', \<lparr> pstart = Fin 10, pend = Fin 19 \<rparr>)]"
  by code_simp


section \<open>The orchestrator\<close>

lemma shortText_not_blank: "trim shortText \<noteq> []"
  unfolding shortText_def by code_simp

lemma validEntry_emptyCache: "validEntry now emptyCache key = None"
  by (simp add: validEntry_def emptyCache_def)

lemma serviceNotConfigured_error: "serviceNotConfigured content = Inl ConfigurationError"
  by (simp add: serviceNotConfigured_def AIService_analyzeContent_def)

lemma serviceDown_error: "serviceDown shortText = Inl TransportError"
  by (simp add: serviceDown_def AIService_analyzeContent_def providerDown_def shortText_not_blank)

subsection \<open>Which errors reach the caller\<close>

text \<open>
  C2. Claim: configuration errors and validation errors propagate to the caller without
  the fallback, and transport, malformed-response and unparsable-analysis errors yield the
  heuristic fallback. Counterexample to the first part: with a service that is not
  configured, whose \<open>analyzeContent\<close> throws the configuration error, the orchestrator
  returns the heuristic fallback result for "Maybe ok.", not the error.
\<close>

theorem configuration_error_caught_counterexample:
  "serviceNotConfigured shortText = Inl ConfigurationError
   \<and> analyzeContent serviceNotConfigured 1000 1200 ''k3j9x2m1q'' emptyCache shortText None
       = (Inr (createBasicAnalysis shortText None 1200 ''k3j9x2m1q''), emptyCache)"
  by (simp add: analyzeContent_def Let_def shortText_not_blank validEntry_emptyCache
      serviceNotConfigured_error)

text \<open>
  C2, amended. A validation error (content that is empty after trimming) propagates to the
  caller at once: neither the cache nor the service nor the fallback is used. Every error
  that the AI service throws, the configuration error included, is caught by the
  orchestrator when the cache has no valid entry, and yields the heuristic fallback
  result instead of an error.
\<close>

theorem orchestrator_error_policy:
  "(trim content = [] \<longrightarrow>
      analyzeContent ai now later rnd cache content pid = (Inl ValidationError, cache))
   \<and> (trim content \<noteq> [] \<and> validEntry now cache (generateCacheKey content) = None
        \<and> ai content = Inl e \<longrightarrow>
      fst (analyzeContent ai now later rnd cache content pid)
        = Inr (createBasicAnalysis content pid later rnd))"
  by (simp add: analyzeContent_def Let_def)

theorem orchestrator_error_policy_witness:
  "analyzeContent serviceDown 1000 1200 ''k3j9x2m1q'' emptyCache [] None
     = (Inl ValidationError, emptyCache)
   \<and> serviceDown shortText = Inl TransportError
   \<and> fst (analyzeContent serviceDown 1000 1200 ''k3j9x2m1q'' emptyCache shortText None)
       = Inr (createBasicAnalysis shortText None 1200 ''k3j9x2m1q'')"
proof -
  have b: "trim [] = ([] :: string)"
    by (simp add: trim_def)
  from orchestrator_error_policy [of "[]" serviceDown 1000 1200 "''k3j9x2m1q''" emptyCache None] b
  have 1: "analyzeContent serviceDown 1000 1200 ''k3j9x2m1q'' emptyCache [] None
     = (Inl ValidationError, emptyCache)"
    by simp
  from orchestrator_error_policy
    [of shortText serviceDown 1000 1200 "''k3j9x2m1q''" emptyCache None TransportError]
    shortText_not_blank validEntry_emptyCache serviceDown_error
  have 2: "fst (analyzeContent serviceDown 1000 1200 ''k3j9x2m1q'' emptyCache shortText None)
       = Inr (createBasicAnalysis shortText None 1200 ''k3j9x2m1q'')"
    by simp
  from 1 2 serviceDown_error show ?thesis by simp
qed

subsection \<open>The cache on the failure path\<close>

text \<open>
  C3. Claim: when the provider path fails with a recoverable error, the orchestrator
  writes the heuristic fallback result into the cache before returning it. Counterexample:
  with an empty cache and a provider that is down, the call for "Maybe ok." returns the
  fallback result and the cache holds nothing under the key of the content afterwards.
\<close>

theorem fallback_not_cached_counterexample:
  "serviceDown shortText = Inl TransportError
   \<and> fst (analyzeContent serviceDown 1000 1200 ''k3j9x2m1q'' emptyCache shortText None)
       = Inr (createBasicAnalysis shortText None 1200 ''k3j9x2m1q'')
   \<and> snd (analyzeContent serviceDown 1000 1200 ''k3j9x2m1q'' emptyCache shortText None)
         (generateCacheKey shortText) = None"
proof -
  have a: "analyzeContent serviceDown 1000 1200 ''k3j9x2m1q'' emptyCache shortText None
     = (Inr (createBasicAnalysis shortText None 1200 ''k3j9x2m1q''), emptyCache)"
    by (simp add: analyzeContent_def Let_def shortText_not_blank validEntry_emptyCache
        serviceDown_error)
  show ?thesis
    unfolding a by (simp add: serviceDown_error emptyCache_def)
qed

text \<open>
  C3, amended. For every analyze call without a valid cache entry in which the provider
  path fails (the service throws any error, or answers without success or without data),
  the orchestrator returns the heuristic fallback result and leaves the cache as it was:
  the failure path is FALLBACK, then DONE, with no cache write. Only a successful provider
  result is written to the cache.
\<close>

theorem fallback_leaves_cache:
  "trim content \<noteq> [] \<and> validEntry now cache (generateCacheKey content) = None
   \<and> (ai content = Inl e
        \<or> (\<exists>response. ai content = Inr response \<and> (data response = None \<or> \<not> success response)))
   \<longrightarrow> analyzeContent ai now later rnd cache content pid
         = (Inr (createBasicAnalysis content pid later rnd), cache)"
  by (auto simp: analyzeContent_def Let_def split: option.splits)

theorem fallback_leaves_cache_witness:
  "analyzeContent serviceDown 1000 1200 ''k3j9x2m1q'' emptyCache shortText None
     = (Inr (createBasicAnalysis shortText None 1200 ''k3j9x2m1q''), emptyCache)"
  using fallback_leaves_cache
    [of shortText 1000 emptyCache serviceDown TransportError 1200 "''k3j9x2m1q''" None]
    shortText_not_blank validEntry_emptyCache serviceDown_error
  by simp

subsection \<open>Cache hits\<close>

text \<open>
  C10. On a cache hit (the cache holds an entry under the fingerprint of the content, and
  the entry is younger than the timeout of 5 minutes), \<open>analyzeContent\<close> returns the cached
  result with only \<open>postId\<close> replaced by the caller's \<open>postId\<close> (the empty string when
  none is given), and \<open>analyzePost\<close> returns it with \<open>postId\<close> replaced by the post's id;
  id, timestamp, metrics, suggestions and ambiguous phrases are those of the cached
  entry, and the cache is unchanged.
\<close>

theorem cache_hit_replaces_postId_only:
  assumes "trim content \<noteq> []"
    and "cache (generateCacheKey content) = Some cached"
    and "now - timestamp cached < 5 * 60 * 1000"
    and "post_content post = content"
  shows "analyzeContent ai now later rnd cache content pid
           = (Inr (cached\<lparr> postId := orEmpty pid \<rparr>), cache)
    \<and> analyzePost ai now later rnd cache post
           = (Inr (cached\<lparr> postId := post_id post \<rparr>), cache)
    \<and> orEmpty None = [] \<and> orEmpty (Some p) = p
    \<and> (\<forall>r. fst (analyzeContent ai now later rnd cache content pid) = Inr r
            \<or> fst (analyzePost ai now later rnd cache post) = Inr r
          \<longrightarrow> ar_id r = ar_id cached \<and> timestamp r = timestamp cached
              \<and> metrics r = metrics cached \<and> suggestions r = suggestions cached
              \<and> ambiguousPhrases r = ambiguousPhrases cached)"
proof -
  from assms(2,3) have v: "validEntry now cache (generateCacheKey content) = Some cached"
    by (simp add: validEntry_def isCacheValid_def cacheTimeout_def)
  from assms(1) v have a: "analyzeContent ai now later rnd cache content pid
           = (Inr (cached\<lparr> postId := orEmpty pid \<rparr>), cache)"
    by (simp add: analyzeContent_def Let_def)
  from assms(1,4) v have b: "analyzePost ai now later rnd cache post
           = (Inr (cached\<lparr> postId := post_id post \<rparr>), cache)"
    by (simp add: analyzePost_def Let_def)
  show ?thesis
    unfolding a b by (auto simp: orEmpty_def)
qed

theorem cache_hit_replaces_postId_only_witness:
  "analyzeContent serviceDown 200000 200300 ''k3j9x2m1q'' warmCache shortText (Some ''post-2'')
     = (Inr (cachedAnalysis\<lparr> postId := ''post-2'' \<rparr>), warmCache)
   \<and> analyzeContent serviceDown 200000 200300 ''k3j9x2m1q'' warmCache shortText None
     = (Inr (cachedAnalysis\<lparr> postId := [] \<rparr>), warmCache)
   \<and> analyzePost serviceDown 200000 200300 ''k3j9x2m1q'' warmCache examplePost
     = (Inr (cachedAnalysis\<lparr> postId := ''post-7'' \<rparr>), warmCache)"
proof -
  have c: "warmCache (generateCacheKey shortText) = Some cachedAnalysis"
    by (simp add: warmCache_def)
  have t: "200000 - timestamp cachedAnalysis < 5 * 60 * 1000"
    by (simp add: cachedAnalysis_def)
  have p: "post_content examplePost = shortText"
    by (simp add: examplePost_def)
  have i: "post_id examplePost = ''post-7''"
    by (simp add: examplePost_def)
  from cache_hit_replaces_postId_only
    [where content = shortText and cache = warmCache and cached = cachedAnalysis
       and now = 200000 and post = examplePost and ai = serviceDown and later = 200300
       and rnd = "''k3j9x2m1q''" and pid = "Some ''post-2''", OF shortText_not_blank c t p]
  have 1: "analyzeContent serviceDown 200000 200300 ''k3j9x2m1q'' warmCache shortText (Some ''post-2'')
     = (Inr (cachedAnalysis\<lparr> postId := ''post-2'' \<rparr>), warmCache)"
    and 3: "analyzePost serviceDown 200000 200300 ''k3j9x2m1q'' warmCache examplePost
     = (Inr (cachedAnalysis\<lparr> postId := ''post-7'' \<rparr>), warmCache)"
    by (simp_all add: orEmpty_def i)
  from cache_hit_replaces_postId_only
    [where content = shortText and cache = warmCache and cached = cachedAnalysis
       and now = 200000 and post = examplePost and ai = serviceDown and later = 200300
       and rnd = "''k3j9x2m1q''" and pid = None, OF shortText_not_blank c t p]
  have 2: "analyzeContent serviceDown 200000 200300 ''k3j9x2m1q'' warmCache shortText None
     = (Inr (cachedAnalysis\<lparr> postId := [] \<rparr>), warmCache)"
    by (simp add: orEmpty_def)
  from 1 2 3 show ?thesis by simp
qed

section \<open>The throttler\<close>

lemma spaced_Cons: "spaced ts \<Longrightarrow> (\<forall>u \<in> set ts. t + requestInterval \<le> u) \<Longrightarrow> spaced (t # ts)"
  by (cases ts) simp_all

lemma processQueue_log:
  "processQueue now st pending = (st', ds) \<Longrightarrow>
     map d_id ds = map req_id (rateLimitQueue st) @ map (\<lambda>s. req_id (snd s)) pending
     \<and> map d_outcome ds = map settle (rateLimitQueue st) @ map (\<lambda>s. settle (snd s)) pending
     \<and> spaced (map d_start ds)
     \<and> (\<forall>t \<in> set (map d_start ds). lastRequestTime st + requestInterval \<le> t)"
proof (induction now st pending arbitrary: st' ds rule: processQueue.induct)
  case (1 now st pending)
  note unf = "1.prems" [unfolded processQueue.simps [of now st pending]]
  show ?case
  proof (cases "rateLimitQueue st")
    case Nil
    note q = Nil
    show ?thesis
    proof (cases pending)
      case Nil
      with q unf have "ds = []"
        by simp
      with q Nil show ?thesis by simp
    next
      case (Cons s rest)
      with q unf
      have r: "processQueue (fst s) (st\<lparr> rateLimitQueue := [snd s], isProcessingQueue := True \<rparr>) rest = (st', ds)"
        by simp
      from "1.IH"(1) [OF q Cons r] q Cons show ?thesis by simp
    qed
  next
    case (Cons request queue)
    define start where "start = (if now - lastRequestTime st < requestInterval
                        then now + (requestInterval - (now - lastRequestTime st)) + int (req_timerLate request)
                        else now)"
    define finish where "finish = start + int (req_duration request)"
    define arrived where "arrived = fst (arrive finish pending)"
    define rest where "rest = snd (arrive finish pending)"
    obtain st2 ds2 where rec: "processQueue finish
        (st\<lparr> rateLimitQueue := queue @ arrived, lastRequestTime := finish \<rparr>) rest = (st2, ds2)"
      by (cases "processQueue finish (st\<lparr> rateLimitQueue := queue @ arrived, lastRequestTime := finish \<rparr>) rest") auto
    from "1.prems" Cons rec
    have ds: "ds = \<lparr> d_id = req_id request, d_start = start, d_outcome = settle request \<rparr> # ds2"
      by (simp add: processQueue.simps [of now st pending] Let_def start_def finish_def arrived_def rest_def)
    have ih: "map d_id ds2 = map req_id (queue @ arrived) @ map (\<lambda>s. req_id (snd s)) rest
     \<and> map d_outcome ds2 = map settle (queue @ arrived) @ map (\<lambda>s. settle (snd s)) rest
     \<and> spaced (map d_start ds2)
     \<and> (\<forall>t \<in> set (map d_start ds2). finish + requestInterval \<le> t)"
      using "1.IH"(2) [OF Cons refl refl refl refl refl, of st2 ds2] rec
      by (simp add: start_def finish_def arrived_def rest_def)
    have split: "map snd (takeWhile (\<lambda>s. fst s \<le> finish) pending) = arrived"
      "dropWhile (\<lambda>s. fst s \<le> finish) pending = rest"
      by (simp_all add: arrived_def rest_def arrive_def)
    have pend: "pending = takeWhile (\<lambda>s. fst s \<le> finish) pending @ rest"
      using split(2) by (metis takeWhile_dropWhile_id)
    have ids: "map (\<lambda>s. req_id (snd s)) pending = map req_id arrived @ map (\<lambda>s. req_id (snd s)) rest"
      by (subst pend) (simp add: split(1) [symmetric] del: takeWhile_dropWhile_id)
    have outs: "map (\<lambda>s. settle (snd s)) pending = map settle arrived @ map (\<lambda>s. settle (snd s)) rest"
      by (subst pend) (simp add: split(1) [symmetric] del: takeWhile_dropWhile_id)
    have s1: "lastRequestTime st + requestInterval \<le> start"
      by (simp add: start_def)
    have s2: "start \<le> finish"
      by (simp add: finish_def)
    have i0: "0 \<le> requestInterval"
      by (simp add: requestInterval_def)
    from ih s2 have low: "\<forall>u \<in> set (map d_start ds2). start + requestInterval \<le> u"
      by auto
    from ih have sp: "spaced (map d_start ds2)" by simp
    have "spaced (map d_start ds)"
      unfolding ds using spaced_Cons [OF sp low] by simp
    moreover have "\<forall>t \<in> set (map d_start ds). lastRequestTime st + requestInterval \<le> t"
      unfolding ds using s1 low i0 by auto
    moreover have "map d_id ds = map req_id (rateLimitQueue st) @ map (\<lambda>s. req_id (snd s)) pending"
      unfolding ds using ih Cons ids by simp
    moreover have "map d_outcome ds = map settle (rateLimitQueue st) @ map (\<lambda>s. settle (snd s)) pending"
      unfolding ds using ih Cons outs by simp
    ultimately show ?thesis by simp
  qed
qed

lemma spaced_span:
  "spaced ts \<Longrightarrow> ts \<noteq> [] \<Longrightarrow> (int (length ts) - 1) * requestInterval \<le> last ts - hd ts"
proof (induction ts rule: spaced.induct)
  case 1
  then show ?case by simp
next
  case (2 t)
  then show ?case by simp
next
  case (3 t u ts)
  then have "(int (length (u # ts)) - 1) * requestInterval \<le> last (u # ts) - u"
    by simp
  moreover from 3 have "t + requestInterval \<le> u" by simp
  ultimately show ?case by (simp add: algebra_simps)
qed

text \<open>
  C9. For every sequence of N submissions to the throttler: the requests are dispatched
  in the order of submission, each of them once; consecutive dispatches start at least
  1000 ms apart, so at least (N - 1) * 1000 ms pass between the start of the first and the
  start of the last dispatch; and every request is dispatched and settles its own
  caller, whether or not earlier requests rejected.
\<close>

theorem throttler_fifo_spaced:
  "map d_id (snd (runThrottler submissions)) = map (\<lambda>s. req_id (snd s)) submissions
   \<and> map d_outcome (snd (runThrottler submissions)) = map (\<lambda>s. settle (snd s)) submissions
   \<and> spaced (map d_start (snd (runThrottler submissions)))
   \<and> (submissions \<noteq> [] \<longrightarrow>
        (int (length submissions) - 1) * requestInterval
          \<le> d_start (last (snd (runThrottler submissions)))
            - d_start (hd (snd (runThrottler submissions))))"
proof -
  obtain st' ds where run: "processQueue 0 newThrottler submissions = (st', ds)"
    by (cases "processQueue 0 newThrottler submissions") auto
  then have ds: "snd (runThrottler submissions) = ds"
    by (simp add: runThrottler_def)
  from processQueue_log [OF run]
  have ids: "map d_id ds = map (\<lambda>s. req_id (snd s)) submissions"
    and outs: "map d_outcome ds = map (\<lambda>s. settle (snd s)) submissions"
    and sp: "spaced (map d_start ds)"
    by (simp_all add: newThrottler_def)
  from ids have len: "length ds = length submissions"
    by (metis length_map)
  have "submissions \<noteq> [] \<longrightarrow>
        (int (length submissions) - 1) * requestInterval \<le> d_start (last ds) - d_start (hd ds)"
  proof
    assume "submissions \<noteq> []"
    with len have ne: "ds \<noteq> []" by auto
    then have "map d_start ds \<noteq> []" by simp
    from spaced_span [OF sp this] ne len show
      "(int (length submissions) - 1) * requestInterval \<le> d_start (last ds) - d_start (hd ds)"
      by (simp add: last_map hd_map)
  qed
  with ids outs sp show ?thesis unfolding ds by simp
qed

theorem throttler_fifo_spaced_witness:
  "snd (runThrottler threeSubmissions)
     = [\<lparr> d_id = 1, d_start = 5000, d_outcome = Resolved \<rparr>,
        \<lparr> d_id = 2, d_start = 6304, d_outcome = Rejected \<rparr>,
        \<lparr> d_id = 3, d_start = 7354, d_outcome = Resolved \<rparr>]
   \<and> map d_id (snd (runThrottler threeSubmissions)) = [1, 2, 3]
   \<and> spaced (map d_start (snd (runThrottler threeSubmissions)))
   \<and> 2 * requestInterval
        \<le> d_start (last (snd (runThrottler threeSubmissions)))
          - d_start (hd (snd (runThrottler threeSubmissions)))"
proof -
  have run: "snd (runThrottler threeSubmissions)
     = [\<lparr> d_id = 1, d_start = 5000, d_outcome = Resolved \<rparr>,
        \<lparr> d_id = 2, d_start = 6304, d_outcome = Rejected \<rparr>,
        \<lparr> d_id = 3, d_start = 7354, d_outcome = Resolved \<rparr>]"
    by (simp add: runThrottler_def threeSubmissions_def newThrottler_def processQueue.simps
        arrive_def requestInterval_def settle_def Let_def)
  have ne: "threeSubmissions \<noteq> []" and len: "int (length threeSubmissions) - 1 = 2"
    and ids: "map (\<lambda>s. req_id (snd s)) threeSubmissions = [1, 2, 3]"
    by (simp_all add: threeSubmissions_def)
  from throttler_fifo_spaced [of threeSubmissions] ne len ids
  have "map d_id (snd (runThrottler threeSubmissions)) = [1, 2, 3]
   \<and> spaced (map d_start (snd (runThrottler threeSubmissions)))
   \<and> 2 * requestInterval
        \<le> d_start (last (snd (runThrottler threeSubmissions)))
          - d_start (hd (snd (runThrottler threeSubmissions)))"
    by simp
  with run show ?thesis by simp
qed

end
